theory Spec2Isabelle
  imports Complex_Main "HOL-Library.Monad_Syntax"
begin

section \<open>FocusX: the Pomodoro blocker of \<^verbatim>\<open>FocusX-120min.py\<close>\<close>

text \<open>
  The program is one class, \<^verbatim>\<open>PomodoroBlocker\<close>. Its attributes are the fields of the
  record \<open>app\<close>. The objects it creates at run time and reaches through attributes (pynput
  listeners, Tk top-level windows, the audio endpoint) live in explicit stores, so that an
  attribute overwritten by a later call can leave an object behind that nothing refers to.

  Python \<^verbatim>\<open>int\<close> is \<open>int\<close>. Python \<^verbatim>\<open>float\<close> (the NTP offset, \<^verbatim>\<open>time.time()\<close>) is
  idealised as \<open>real\<close>: the properties below only depend on whether the offset is zero.
\<close>

subsection \<open>Run-time objects\<close>

datatype device = Mouse | Keyboard

text \<open>
  A pynput listener is a thread object: created, then started, then stopped. The status
  records the calls this program has made on the object.
\<close>

datatype lstatus = Created | Started | Stopped

type_synonym listener = "device \<times> lstatus"

text \<open>
  The speaker endpoint behind \<^verbatim>\<open>self.audio\<close>. \<open>faulty\<close> says that \<^verbatim>\<open>SetMute\<close> raises,
  which \<^verbatim>\<open>mute_audio\<close> and \<^verbatim>\<open>unmute_audio\<close> catch.
\<close>

record endpoint =
  muted :: bool
  faulty :: bool

text \<open>The lines the program prints.\<close>

datatype msg =
  Synchronized string real
  | SyncWarning
  | AudioInitFailed
  | MuteFailed
  | UnmuteFailed

record app =
  work_duration :: int
  rest_duration :: int
  is_running :: bool
  is_work_session :: bool
  ntp_servers :: "string list"
  time_offset :: real
  overlay :: "nat option"
  night_overlay :: "nat option"
  time_var :: string
  status_var :: string
  blocking :: bool
  mouse_listener :: "nat option"
  keyboard_listener :: "nat option"
  audio :: "endpoint option"
  listeners :: "listener list"
  windows :: "bool list"
  console :: "msg list"

text \<open>
  \<open>listeners\<close> is the store of every listener object created so far, addressed by
  position; \<open>mouse_listener\<close> and \<open>keyboard_listener\<close> hold addresses into it. \<open>windows\<close>
  is the store of top-level windows (\<open>True\<close>: on screen, \<open>False\<close>: destroyed), addressed
  by \<open>overlay\<close> and \<open>night_overlay\<close>. \<open>console\<close> is standard output.
\<close>

subsection \<open>Listeners and input blocking\<close>

definition set_status :: "nat \<Rightarrow> lstatus \<Rightarrow> listener list \<Rightarrow> listener list" where
  "set_status i st ls = (if i < length ls then ls[i := (fst (ls ! i), st)] else ls)"

definition new_listener :: "device \<Rightarrow> app \<Rightarrow> nat \<times> app" where
  "new_listener d s = (length (listeners s), s\<lparr>listeners := listeners s @ [(d, Created)]\<rparr>)"

definition listener_start :: "nat \<Rightarrow> app \<Rightarrow> app" where
  "listener_start i s = s\<lparr>listeners := set_status i Started (listeners s)\<rparr>"

definition listener_stop :: "nat \<Rightarrow> app \<Rightarrow> app" where
  "listener_stop i s = s\<lparr>listeners := set_status i Stopped (listeners s)\<rparr>"

text \<open>
  \<^verbatim>\<open>block_input\<close> (lines 328-336): sets the flag, creates two fresh listeners, stores them
  in the two attributes (overwriting whatever was there) and starts them.
\<close>

definition block_input :: "app \<Rightarrow> app" where
  "block_input s =
    (let s1 = s\<lparr>blocking := True\<rparr>;
         (m, s2) = new_listener Mouse s1;
         s3 = s2\<lparr>mouse_listener := Some m\<rparr>;
         (k, s4) = new_listener Keyboard s3;
         s5 = s4\<lparr>keyboard_listener := Some k\<rparr>;
         s6 = listener_start m s5
     in listener_start k s6)"

text \<open>
  \<^verbatim>\<open>unblock_input\<close> (lines 338-344): clears the flag and stops the listeners the two
  attributes refer to, when they are not \<^verbatim>\<open>None\<close>.
\<close>

definition unblock_input :: "app \<Rightarrow> app" where
  "unblock_input s =
    (let s1 = s\<lparr>blocking := False\<rparr>;
         s2 = (case mouse_listener s1 of None \<Rightarrow> s1 | Some m \<Rightarrow> listener_stop m s1)
     in (case keyboard_listener s2 of None \<Rightarrow> s2 | Some k \<Rightarrow> listener_stop k s2))"

text \<open>
  What the user observes of input blocking: some listener that was started has not been
  stopped. The flag \<open>blocking\<close> is written by the program and never read.
\<close>

definition intercepting :: "app \<Rightarrow> bool" where
  "intercepting s = (Started \<in> snd ` set (listeners s))"

definition running_listeners :: "app \<Rightarrow> nat list" where
  "running_listeners s = filter (\<lambda>i. snd (listeners s ! i) = Started) [0 ..< length (listeners s)]"

text \<open>Every call of \<^verbatim>\<open>block_input\<close> creates exactly two listeners, and nothing else creates any.\<close>

definition block_input_calls :: "app \<Rightarrow> nat" where
  "block_input_calls s = length (listeners s) div 2"

subsection \<open>Audio\<close>

text \<open>
  \<^verbatim>\<open>init_audio_control\<close> (lines 178-185): \<open>dev\<close> is what the platform returns, \<open>None\<close> when
  one of the calls raises.
\<close>

definition init_audio_control :: "endpoint option \<Rightarrow> app \<Rightarrow> app" where
  "init_audio_control dev s =
    (case dev of
       Some e \<Rightarrow> s\<lparr>audio := Some e\<rparr>
     | None \<Rightarrow> s\<lparr>console := console s @ [AudioInitFailed]\<rparr>)"

definition mute_audio :: "app \<Rightarrow> app" where
  "mute_audio s =
    (case audio s of
       None \<Rightarrow> s
     | Some e \<Rightarrow>
         if faulty e then s\<lparr>console := console s @ [MuteFailed]\<rparr>
         else s\<lparr>audio := Some (e\<lparr>muted := True\<rparr>)\<rparr>)"

definition unmute_audio :: "app \<Rightarrow> app" where
  "unmute_audio s =
    (case audio s of
       None \<Rightarrow> s
     | Some e \<Rightarrow>
         if faulty e then s\<lparr>console := console s @ [UnmuteFailed]\<rparr>
         else s\<lparr>audio := Some (e\<lparr>muted := False\<rparr>)\<rparr>)"

definition audio_muted :: "app \<Rightarrow> bool" where
  "audio_muted s = (case audio s of None \<Rightarrow> False | Some e \<Rightarrow> muted e)"

subsection \<open>Windows\<close>

definition new_window :: "app \<Rightarrow> nat \<times> app" where
  "new_window s = (length (windows s), s\<lparr>windows := windows s @ [True]\<rparr>)"

definition destroy_window :: "nat \<Rightarrow> app \<Rightarrow> app" where
  "destroy_window w s =
    s\<lparr>windows := (if w < length (windows s) then (windows s)[w := False] else windows s)\<rparr>"

text \<open>
  \<^verbatim>\<open>create_overlay\<close> (lines 244-277). The labels, the random break message and the
  \<^verbatim>\<open>update_display\<close> callback only draw; they change none of the attributes.
\<close>

definition create_overlay :: "app \<Rightarrow> app" where
  "create_overlay s = (let (w, s1) = new_window s in s1\<lparr>overlay := Some w\<rparr>)"

text \<open>
  \<^verbatim>\<open>if self.overlay: self.overlay.destroy()\<close>: the attribute keeps referring to the
  destroyed window.
\<close>

definition destroy_overlay :: "app \<Rightarrow> app" where
  "destroy_overlay s = (case overlay s of None \<Rightarrow> s | Some w \<Rightarrow> destroy_window w s)"

text \<open>\<^verbatim>\<open>create_night_overlay\<close> (lines 113-147) and \<^verbatim>\<open>remove_night_overlay\<close> (lines 149-154).\<close>

definition create_night_overlay :: "app \<Rightarrow> app" where
  "create_night_overlay s =
    (if night_overlay s \<noteq> None then s
     else let (w, s1) = new_window s;
              s2 = s1\<lparr>night_overlay := Some w\<rparr>
          in block_input s2)"

definition remove_night_overlay :: "app \<Rightarrow> app" where
  "remove_night_overlay s =
    (case night_overlay s of
       None \<Rightarrow> s
     | Some w \<Rightarrow>
         let s1 = destroy_window w s;
             s2 = s1\<lparr>night_overlay := None\<rparr>
         in unblock_input s2)"

subsection \<open>Time source and night window\<close>

text \<open>
  What one request to a server produces: a response carrying an offset, one of the three
  exceptions \<^verbatim>\<open>sync_time\<close> catches, or any other exception.
\<close>

datatype ntp_result =
  Response real
  | NTPException
  | Gaierror
  | SocketTimeout
  | OtherException

datatype error = Uncaught

text \<open>
  \<^verbatim>\<open>sync_time\<close> (lines 88-99). \<open>net\<close> is the network: what a request to each server
  produces during this call.
\<close>

fun sync_servers :: "(string \<Rightarrow> ntp_result) \<Rightarrow> string list \<Rightarrow> app \<Rightarrow> error + app" where
  "sync_servers net [] s = Inr (s\<lparr>console := console s @ [SyncWarning]\<rparr>)"
| "sync_servers net (server # rest) s =
    (case net server of
       Response off \<Rightarrow>
         Inr (s\<lparr>time_offset := off, console := console s @ [Synchronized server off]\<rparr>)
     | NTPException \<Rightarrow> sync_servers net rest s
     | Gaierror \<Rightarrow> sync_servers net rest s
     | SocketTimeout \<Rightarrow> sync_servers net rest s
     | OtherException \<Rightarrow> Inl Uncaught)"

definition sync_time :: "(string \<Rightarrow> ntp_result) \<Rightarrow> app \<Rightarrow> error + app" where
  "sync_time net s = sync_servers net (ntp_servers s) s"

text \<open>The failures that the \<^verbatim>\<open>except\<close> clause of line 97 catches.\<close>

fun caught :: "ntp_result \<Rightarrow> bool" where
  "caught NTPException = True"
| "caught Gaierror = True"
| "caught SocketTimeout = True"
| "caught _ = False"

text \<open>Two networks for concrete runs: no server answers; every server answers \<open>off\<close>.\<close>

definition unreachable :: "string \<Rightarrow> ntp_result" where
  "unreachable server = NTPException"

definition answering :: "real \<Rightarrow> string \<Rightarrow> ntp_result" where
  "answering off server = Response off"

text \<open>
  \<^verbatim>\<open>get_accurate_time\<close> (lines 101-106). \<open>t\<close> is the reading of the local clock, as a
  timestamp; the result is the timestamp of the returned \<^verbatim>\<open>datetime\<close>.
\<close>

definition get_accurate_time :: "app \<Rightarrow> real \<Rightarrow> real" where
  "get_accurate_time s t = (if time_offset s \<noteq> 0 then t + time_offset s else t)"

text \<open>The test of line 111 on the \<^verbatim>\<open>hour\<close> field of a \<^verbatim>\<open>datetime\<close>.\<close>

definition night_hour :: "int \<Rightarrow> bool" where
  "night_hour h = (0 \<le> h \<and> h < 6)"

text \<open>
  \<^verbatim>\<open>is_night_time\<close> (lines 108-111). \<open>hour\<close> is the local time zone: the calendar hour of a
  timestamp.
\<close>

definition is_night_time :: "(real \<Rightarrow> int) \<Rightarrow> app \<Rightarrow> real \<Rightarrow> bool" where
  "is_night_time hour s t = (let current_time = get_accurate_time s t in night_hour (hour current_time))"

text \<open>A zone for concrete runs: UTC.\<close>

definition utc_hour :: "real \<Rightarrow> int" where
  "utc_hour t = (\<lfloor>t\<rfloor> div 3600) mod 24"

text \<open>
  The night window as the specification words it: a pair of hours and membership in the
  half-open interval.
\<close>

record night_window =
  startHour :: int
  endHour :: int

definition isNight :: "int \<Rightarrow> night_window \<Rightarrow> bool" where
  "isNight h w = (startHour w \<le> h \<and> h < endHour w)"

definition default_window :: night_window where
  "default_window = \<lparr>startHour = 0, endHour = 6\<rparr>"

subsection \<open>The display\<close>

text \<open>The format \<^verbatim>\<open>f"{minutes:02d}:{seconds:02d}"\<close> of line 314.\<close>

fun dec :: "nat \<Rightarrow> string" where
  "dec n = (if n < 10 then [''0123456789'' ! n] else dec (n div 10) @ [''0123456789'' ! (n mod 10)])"

declare dec.simps [simp del]

definition fmt02d :: "int \<Rightarrow> string" where
  "fmt02d n =
    (if n < 0 then CHR ''-'' # dec (nat (- n))
     else if n < 10 then CHR ''0'' # dec (nat n)
     else dec (nat n))"

definition clock_text :: "int \<Rightarrow> string" where
  "clock_text duration =
    (let (minutes, seconds) = (duration div 60, duration mod 60)
     in fmt02d minutes @ '':'' @ fmt02d seconds)"

subsection \<open>The session scheduler\<close>

text \<open>
  The two branches of \<^verbatim>\<open>_run_timer\<close> (lines 293-305) up to the call of \<^verbatim>\<open>countdown\<close>.
\<close>

definition enter_work :: "app \<Rightarrow> app" where
  "enter_work s =
    (let s1 = s\<lparr>status_var := ''Work Session''\<rparr>;
         s2 = unblock_input s1;
         s3 = unmute_audio s2
     in destroy_overlay s3)"

definition enter_break :: "app \<Rightarrow> app" where
  "enter_break s =
    (let s1 = s\<lparr>status_var := ''Break Time''\<rparr>;
         s2 = create_overlay s1;
         s3 = block_input s2
     in mute_audio s3)"

text \<open>\<^verbatim>\<open>cleanup\<close> (lines 318-326) and \<^verbatim>\<open>stop_timer\<close> (lines 285-288).\<close>

definition cleanup :: "app \<Rightarrow> app" where
  "cleanup s =
    (let s1 = destroy_overlay s;
         s2 = unblock_input s1;
         s3 = unmute_audio s2;
         s4 = s3\<lparr>time_var := ''120:00''\<rparr>;
         s5 = s4\<lparr>status_var := ''Ready to focus''\<rparr>
     in s5\<lparr>is_work_session := True\<rparr>)"

definition stop_timer :: "app \<Rightarrow> app" where
  "stop_timer s = cleanup (s\<lparr>is_running := False\<rparr>)"

text \<open>
  A timer thread runs \<^verbatim>\<open>_run_timer\<close>. Between two calls of \<^verbatim>\<open>time.sleep(1)\<close> it is either
  about to test the \<^verbatim>\<open>while\<close> of line 292, or about to test the \<^verbatim>\<open>while\<close> of
  \<^verbatim>\<open>countdown\<close> (line 312) with some value of the local \<^verbatim>\<open>duration\<close>. At rest it has not
  run yet, sleeps inside \<^verbatim>\<open>countdown\<close> with its local \<^verbatim>\<open>duration\<close>, or has returned.
\<close>

datatype control = AtWhile | AtCountdown int

datatype tstate = Ready | Sleeping int | Finished

datatype phase = Work | Break

text \<open>
  What a thread does while it runs is reported as a list of labels: \<open>Enter p\<close> when a
  branch of \<^verbatim>\<open>_run_timer\<close> is entered (\<^verbatim>\<open>self.status_var.set\<close>), \<open>Expired d\<close> when
  \<^verbatim>\<open>countdown\<close> returns with its local \<^verbatim>\<open>duration\<close> equal to \<open>d\<close>.
\<close>

datatype label = Enter phase | Expired int

text \<open>
  \<open>resume c s\<close> runs a thread from \<open>c\<close> to its next sleep or to its return. A thread that
  never sleeps again (both durations at most 0, the flag set) has no result: \<open>None\<close>.
\<close>

partial_function (option) resume :: "control \<Rightarrow> app \<Rightarrow> (app \<times> tstate \<times> label list) option" where
  "resume c s =
    (case c of
       AtCountdown duration \<Rightarrow>
         if duration > 0 \<and> is_running s
         then Some (s\<lparr>time_var := clock_text duration\<rparr>, Sleeping duration, [])
         else Option.bind
                (resume AtWhile
                   (if is_running s then s\<lparr>is_work_session := \<not> is_work_session s\<rparr> else s))
                (\<lambda>(s', t, ls). Some (s', t, Expired duration # ls))
     | AtWhile \<Rightarrow>
         if is_running s
         then if is_work_session s
              then Option.bind (resume (AtCountdown (work_duration s)) (enter_work s))
                     (\<lambda>(s', t, ls). Some (s', t, Enter Work # ls))
              else Option.bind (resume (AtCountdown (rest_duration s)) (enter_break s))
                     (\<lambda>(s', t, ls). Some (s', t, Enter Break # ls))
         else Some (s, Finished, []))"

declare resume.simps [code]

subsection \<open>The running program\<close>

text \<open>
  The process: the object, its timer threads (\<^verbatim>\<open>start_timer\<close> creates one per call and
  keeps no handle on it) and the callbacks queued with \<^verbatim>\<open>self.root.after(0, ...)\<close>.
\<close>

datatype callback = CreateNightOverlay | RemoveNightOverlay

record sys =
  self :: app
  threads :: "tstate list"
  queue :: "callback list"

text \<open>\<^verbatim>\<open>start_timer\<close> (lines 279-283).\<close>

definition start_timer :: "sys \<Rightarrow> sys" where
  "start_timer S =
    S\<lparr>self := (self S)\<lparr>is_running := True, is_work_session := True\<rparr>,
      threads := threads S @ [Ready]\<rparr>"

text \<open>One iteration of \<^verbatim>\<open>monitor_time\<close> (lines 159-166), the clock reading \<open>t\<close>.\<close>

definition monitor_time :: "(real \<Rightarrow> int) \<Rightarrow> real \<Rightarrow> sys \<Rightarrow> sys" where
  "monitor_time hour t S =
    (if is_night_time hour (self S) t
     then if night_overlay (self S) = None
          then S\<lparr>queue := queue S @ [CreateNightOverlay]\<rparr> else S
     else if night_overlay (self S) \<noteq> None
          then S\<lparr>queue := queue S @ [RemoveNightOverlay]\<rparr> else S)"

text \<open>The main loop runs the oldest queued callback.\<close>

definition mainloop_step :: "sys \<Rightarrow> sys" where
  "mainloop_step S =
    (case queue S of
       [] \<Rightarrow> S
     | CreateNightOverlay # cs \<Rightarrow> S\<lparr>self := create_night_overlay (self S), queue := cs\<rparr>
     | RemoveNightOverlay # cs \<Rightarrow> S\<lparr>self := remove_night_overlay (self S), queue := cs\<rparr>)"

text \<open>
  Thread \<open>i\<close> runs until its next sleep: a new thread from line 292, a sleeping one from
  line 316 (\<^verbatim>\<open>duration -= 1\<close>).
\<close>

definition wake :: "nat \<Rightarrow> sys \<Rightarrow> (sys \<times> label list) option" where
  "wake i S =
    (if i < length (threads S)
     then (case threads S ! i of
             Finished \<Rightarrow> Some (S, [])
           | Ready \<Rightarrow>
               Option.bind (resume AtWhile (self S))
                 (\<lambda>(s', t, ls). Some (S\<lparr>self := s', threads := (threads S)[i := t]\<rparr>, ls))
           | Sleeping duration \<Rightarrow>
               Option.bind (resume (AtCountdown (duration - 1)) (self S))
                 (\<lambda>(s', t, ls). Some (S\<lparr>self := s', threads := (threads S)[i := t]\<rparr>, ls)))
     else Some (S, []))"

text \<open>
  What happens to the process, one event at a time: the two buttons, a timer thread
  waking up, an iteration of the monitor thread, the main loop serving a callback. What a
  thread does between two sleeps is one event, so every run of the model is a schedule of
  the program; the schedules that switch threads between two sleeps of a timer thread are
  not among them. The theorems about all runs below are about one timer thread and about
  the monitor with the main loop, whose calls into the object are made by the main loop
  alone.
\<close>

datatype event = Start | Stop | Wake nat | Poll real | Gui

definition exec :: "(real \<Rightarrow> int) \<Rightarrow> event \<Rightarrow> sys \<Rightarrow> (sys \<times> label list) option" where
  "exec hour e S =
    (case e of
       Start \<Rightarrow> Some (start_timer S, [])
     | Stop \<Rightarrow> Some (S\<lparr>self := stop_timer (self S)\<rparr>, [])
     | Wake i \<Rightarrow> wake i S
     | Poll t \<Rightarrow> Some (monitor_time hour t S, [])
     | Gui \<Rightarrow> Some (mainloop_step S, []))"

fun run_events :: "(real \<Rightarrow> int) \<Rightarrow> event list \<Rightarrow> sys \<Rightarrow> (sys \<times> label list) option" where
  "run_events hour [] S = Some (S, [])"
| "run_events hour (e # es) S =
    Option.bind (exec hour e S)
      (\<lambda>(S1, ls1). Option.bind (run_events hour es S1)
         (\<lambda>(S2, ls2). Some (S2, ls1 @ ls2)))"

text \<open>The events of the night monitor while the sampled time is in the night window.\<close>

fun night_event :: "(real \<Rightarrow> int) \<Rightarrow> app \<Rightarrow> event \<Rightarrow> bool" where
  "night_event hour s (Poll t) = is_night_time hour s t"
| "night_event hour s Gui = True"
| "night_event hour s e = False"

text \<open>
  \<^verbatim>\<open>__init__\<close> (lines 19-86): the attributes, \<^verbatim>\<open>setup_ui\<close> (the two display variables),
  \<^verbatim>\<open>init_audio_control\<close>, the first \<^verbatim>\<open>sync_time\<close>, and the background threads.
\<close>

definition init_attributes :: app where
  "init_attributes =
    \<lparr>work_duration = 120 * 60, rest_duration = 7 * 60,
     is_running = False, is_work_session = True,
     ntp_servers = [''pool.ntp.org'', ''time.google.com'', ''time.windows.com'', ''time.apple.com''],
     time_offset = 0,
     overlay = None, night_overlay = None,
     time_var = ''120:00'', status_var = ''Ready to focus'',
     blocking = False, mouse_listener = None, keyboard_listener = None,
     audio = None, listeners = [], windows = [], console = []\<rparr>"

definition init :: "endpoint option \<Rightarrow> (string \<Rightarrow> ntp_result) \<Rightarrow> error + sys" where
  "init dev net =
    (case sync_time net (init_audio_control dev init_attributes) of
       Inl e \<Rightarrow> Inl e
     | Inr s \<Rightarrow> Inr \<lparr>self = s, threads = [], queue = []\<rparr>)"

text \<open>\<^verbatim>\<open>run\<close> (lines 346-351): the check made before the main loop starts.\<close>

definition run :: "(real \<Rightarrow> int) \<Rightarrow> real \<Rightarrow> sys \<Rightarrow> sys" where
  "run hour t S =
    (if is_night_time hour (self S) t then S\<lparr>self := create_night_overlay (self S)\<rparr> else S)"

text \<open>
  The process after start-up on a machine with a working speaker and no network:
  \<open>init (Some speaker) unreachable\<close>.
\<close>

definition speaker :: endpoint where
  "speaker = \<lparr>muted = False, faulty = False\<rparr>"

definition booted :: sys where
  "booted =
    \<lparr>self = init_attributes\<lparr>audio := Some speaker, console := [SyncWarning]\<rparr>,
     threads = [], queue = []\<rparr>"

text \<open>The sessions in flight, the phases entered, and strict alternation.\<close>

definition live_sessions :: "sys \<Rightarrow> nat" where
  "live_sessions S = length (filter (\<lambda>t. t \<noteq> Finished) (threads S))"

fun phases :: "label list \<Rightarrow> phase list" where
  "phases [] = []"
| "phases (Enter p # ls) = p # phases ls"
| "phases (Expired d # ls) = phases ls"

fun alternating :: "phase list \<Rightarrow> bool" where
  "alternating (p # q # ps) = (p \<noteq> q \<and> alternating (q # ps))"
| "alternating ps = True"

subsection \<open>Observations\<close>

text \<open>
  What the theorems read off a run: the phase flag, the state of one timer thread, the
  display and the labels; the enforcement state; the timer threads; the night state.
\<close>

definition phase_of :: "app \<Rightarrow> phase" where
  "phase_of s = (if is_work_session s then Work else Break)"

definition thread_state :: "nat \<Rightarrow> sys \<Rightarrow> tstate option" where
  "thread_state i S = (if i < length (threads S) then Some (threads S ! i) else None)"

definition observe ::
  "nat \<Rightarrow> (sys \<times> label list) option \<Rightarrow> (phase \<times> tstate option \<times> string \<times> label list) option" where
  "observe i r =
    (case r of
       None \<Rightarrow> None
     | Some (S, ls) \<Rightarrow> Some (phase_of (self S), thread_state i S, time_var (self S), ls))"

definition lock_state ::
  "(sys \<times> label list) option \<Rightarrow> (bool \<times> bool \<times> nat list \<times> bool \<times> string) option" where
  "lock_state r =
    (case r of
       None \<Rightarrow> None
     | Some (S, ls) \<Rightarrow>
         Some (is_running (self S), blocking (self S), running_listeners (self S),
               audio_muted (self S), time_var (self S)))"

definition sessions ::
  "(sys \<times> label list) option \<Rightarrow> (nat \<times> tstate list \<times> string \<times> label list) option" where
  "sessions r =
    (case r of
       None \<Rightarrow> None
     | Some (S, ls) \<Rightarrow> Some (live_sessions S, threads S, time_var (self S), ls))"

definition night_state ::
  "(real \<Rightarrow> int) \<Rightarrow> real \<Rightarrow> (sys \<times> label list) option
     \<Rightarrow> (bool \<times> nat option \<times> bool \<times> nat list \<times> label list) option" where
  "night_state hour t r =
    (case r of
       None \<Rightarrow> None
     | Some (S, ls) \<Rightarrow>
         Some (is_night_time hour (self S) t, night_overlay (self S), blocking (self S),
               running_listeners (self S), ls))"

text \<open>
  A session in flight: its thread sleeps in \<^verbatim>\<open>countdown\<close> with a positive \<^verbatim>\<open>duration\<close>, the
  flag \<^verbatim>\<open>is_running\<close> is set and both durations are positive. \<open>working\<close>: it has just
  entered the work phase.
\<close>

definition in_session :: "nat \<Rightarrow> sys \<Rightarrow> bool" where
  "in_session i S =
    (i < length (threads S)
     \<and> (case threads S ! i of Sleeping d \<Rightarrow> 0 < d | _ \<Rightarrow> False)
     \<and> is_running (self S) \<and> 0 < work_duration (self S) \<and> 0 < rest_duration (self S))"

definition working :: "nat \<Rightarrow> sys \<Rightarrow> bool" where
  "working i S =
    (i < length (threads S) \<and> threads S ! i = Sleeping (work_duration (self S))
     \<and> is_running (self S) \<and> is_work_session (self S)
     \<and> 0 < work_duration (self S) \<and> 0 < rest_duration (self S))"

subsection \<open>Concrete states\<close>

text \<open>
  The configuration of the specification's example scenario: work 2 seconds, break 1
  second. The program itself fixes 7200 and 420 (lines 46-47).
\<close>

definition spec_example :: sys where
  "spec_example = booted\<lparr>self := (self booted)\<lparr>work_duration := 2, rest_duration := 1\<rparr>\<rparr>"

text \<open>
  Three states of the program as shipped, each reached from \<open>booted\<close> (lemmas
  \<open>night_work_reached\<close>, \<open>night_start_reached\<close>, \<open>night_break_end_reached\<close>): a session in
  its first second of work with the night overlay just created; a session started while the
  night overlay was already shown; that session in the last second of its first break.
\<close>

definition night_work :: sys where
  "night_work =
    \<lparr>self = \<lparr>work_duration = 7200, rest_duration = 420, is_running = True,
         is_work_session = True,
         ntp_servers = [''pool.ntp.org'', ''time.google.com'', ''time.windows.com'', ''time.apple.com''],
         time_offset = 0, overlay = None, night_overlay = Some 0,
         time_var = ''120:00'', status_var = ''Work Session'',
         blocking = True, mouse_listener = Some 0, keyboard_listener = Some 1,
         audio = Some \<lparr>muted = False, faulty = False\<rparr>,
         listeners = [(Mouse, Started), (Keyboard, Started)],
         windows = [True], console = [SyncWarning]\<rparr>,
     threads = [Sleeping 7200], queue = []\<rparr>"

definition night_start :: sys where
  "night_start =
    \<lparr>self = \<lparr>work_duration = 7200, rest_duration = 420, is_running = True,
         is_work_session = True,
         ntp_servers = [''pool.ntp.org'', ''time.google.com'', ''time.windows.com'', ''time.apple.com''],
         time_offset = 0, overlay = None, night_overlay = Some 0,
         time_var = ''120:00'', status_var = ''Work Session'',
         blocking = False, mouse_listener = Some 0, keyboard_listener = Some 1,
         audio = Some \<lparr>muted = False, faulty = False\<rparr>,
         listeners = [(Mouse, Stopped), (Keyboard, Stopped)],
         windows = [True], console = [SyncWarning]\<rparr>,
     threads = [Sleeping 7200], queue = []\<rparr>"

definition night_break_end :: sys where
  "night_break_end =
    \<lparr>self = \<lparr>work_duration = 7200, rest_duration = 420, is_running = True,
         is_work_session = False,
         ntp_servers = [''pool.ntp.org'', ''time.google.com'', ''time.windows.com'', ''time.apple.com''],
         time_offset = 0, overlay = Some 1, night_overlay = Some 0,
         time_var = ''00:01'', status_var = ''Break Time'',
         blocking = True, mouse_listener = Some 2, keyboard_listener = Some 3,
         audio = Some \<lparr>muted = True, faulty = False\<rparr>,
         listeners = [(Mouse, Stopped), (Keyboard, Stopped), (Mouse, Started), (Keyboard, Started)],
         windows = [True, True], console = [SyncWarning]\<rparr>,
     threads = [Sleeping 1], queue = []\<rparr>"


section \<open>Input blocking\<close>

lemma set_status_length [simp]: "length (set_status i st ls) = length ls"
  by (simp add: set_status_def)

lemma block_input_listeners:
  "listeners (block_input s) = listeners s @ [(Mouse, Started), (Keyboard, Started)]"
  by (simp add: block_input_def new_listener_def listener_start_def set_status_def
      nth_append list_update_append)

lemma block_input_refs:
  "mouse_listener (block_input s) = Some (length (listeners s))"
  "keyboard_listener (block_input s) = Some (Suc (length (listeners s)))"
  "blocking (block_input s) = True"
  by (simp_all add: block_input_def new_listener_def listener_start_def)

lemma block_input_frame [simp]:
  "night_overlay (block_input s) = night_overlay s"
  "time_offset (block_input s) = time_offset s"
  "windows (block_input s) = windows s"
  "overlay (block_input s) = overlay s"
  "audio (block_input s) = audio s"
  "is_running (block_input s) = is_running s"
  by (simp_all add: block_input_def new_listener_def listener_start_def)

lemma block_input_counts: "block_input_calls (block_input s) = block_input_calls s + 1"
  by (simp add: block_input_calls_def block_input_listeners)

lemma unblock_input_blocking [simp]: "blocking (unblock_input s) = False"
  by (cases "mouse_listener s"; cases "keyboard_listener s")
     (simp_all add: unblock_input_def listener_stop_def)

lemma unblock_input_length [simp]: "length (listeners (unblock_input s)) = length (listeners s)"
  by (cases "mouse_listener s"; cases "keyboard_listener s")
     (simp_all add: unblock_input_def listener_stop_def)

lemma unblock_input_stops:
  "mouse_listener s = Some m \<Longrightarrow> m < length (listeners s) \<Longrightarrow>
     snd (listeners (unblock_input s) ! m) = Stopped"
  "keyboard_listener s = Some k \<Longrightarrow> k < length (listeners s) \<Longrightarrow>
     snd (listeners (unblock_input s) ! k) = Stopped"
  by (cases "mouse_listener s"; cases "keyboard_listener s";
      simp add: unblock_input_def listener_stop_def set_status_def nth_list_update)+

text \<open>
  C10. After two consecutive calls of \<^verbatim>\<open>block_input\<close> and one call of \<^verbatim>\<open>unblock_input\<close>,
  the two listeners created by the second call are stopped and the two created by the first
  call are still started: the attributes refer to the second pair only, and input
  interception persists after \<^verbatim>\<open>unblock_input\<close> has returned.
\<close>

theorem unblock_input_leaves_first_pair:
  "listeners (unblock_input (block_input (block_input s))) =
     listeners s @ [(Mouse, Started), (Keyboard, Started), (Mouse, Stopped), (Keyboard, Stopped)]
   \<and> mouse_listener (unblock_input (block_input (block_input s))) = Some (length (listeners s) + 2)
   \<and> keyboard_listener (unblock_input (block_input (block_input s))) = Some (length (listeners s) + 3)
   \<and> intercepting (unblock_input (block_input (block_input s)))"
  by (simp add: unblock_input_def block_input_refs block_input_listeners listener_stop_def
      set_status_def nth_append list_update_append Let_def intercepting_def)

text \<open>
  C5. Calling \<^verbatim>\<open>block_input\<close> when input is already blocked is not a no-op. On the state
  reached by one call from the initial attributes, a second call yields a different state:
  the flag is set after both, but four listeners run instead of two, and only the second pair
  is reachable from the attributes. The difference is observable: \<^verbatim>\<open>unblock_input\<close> ends
  interception after one call of \<^verbatim>\<open>block_input\<close> and does not end it after two.
\<close>

theorem block_input_twice_differs:
  "block_input (block_input init_attributes) \<noteq> block_input init_attributes
   \<and> blocking (block_input init_attributes)
   \<and> blocking (block_input (block_input init_attributes))
   \<and> running_listeners (block_input init_attributes) = [0, 1]
   \<and> running_listeners (block_input (block_input init_attributes)) = [0, 1, 2, 3]
   \<and> \<not> intercepting (unblock_input (block_input init_attributes))
   \<and> intercepting (unblock_input (block_input (block_input init_attributes)))"
proof -
  have "listeners (block_input (block_input init_attributes))
      \<noteq> listeners (block_input init_attributes)"
    by (simp add: block_input_listeners)
  then have "block_input (block_input init_attributes) \<noteq> block_input init_attributes"
    by auto
  moreover have "listeners init_attributes = []"
    by (simp add: init_attributes_def)
  ultimately show ?thesis
    by (simp add: block_input_refs block_input_listeners running_listeners_def intercepting_def
        unblock_input_def listener_stop_def set_status_def upt_rec nth_append Let_def)
qed

section \<open>Time source and night window\<close>

lemma is_night_time_shift: "is_night_time hour s t = night_hour (hour (t + time_offset s))"
  by (simp add: is_night_time_def get_accurate_time_def)

text \<open>
  C8. \<^verbatim>\<open>is_night_time\<close> tests whether the local calendar hour of the (corrected) instant
  lies in the half-open interval of the default window, from 0 inclusive to 6 exclusive:
  hour 0 and hour 3 are night, hour 6 is not.
\<close>

theorem is_night_time_window:
  "is_night_time hour s t = isNight (hour (get_accurate_time s t)) default_window
   \<and> is_night_time (\<lambda>instant. 0) s t
   \<and> is_night_time (\<lambda>instant. 3) s t
   \<and> \<not> is_night_time (\<lambda>instant. 6) s t
   \<and> is_night_time utc_hour init_attributes 0
   \<and> is_night_time utc_hour init_attributes (3 * 3600)
   \<and> \<not> is_night_time utc_hour init_attributes (6 * 3600)"
  by (simp add: is_night_time_def night_hour_def isNight_def default_window_def utc_hour_def
      get_accurate_time_def init_attributes_def Let_def)

lemma sync_servers_all_caught:
  "\<forall>server \<in> set servers. caught (net server) \<Longrightarrow>
     sync_servers net servers s = Inr (s\<lparr>console := console s @ [SyncWarning]\<rparr>)"
proof (induction servers)
  case Nil
  then show ?case by simp
next
  case (Cons server rest)
  then have "caught (net server)" by simp
  then show ?case using Cons by (cases "net server") simp_all
qed

text \<open>
  C9, as amended. When the request to every reference server fails with one of the caught
  exceptions, \<^verbatim>\<open>sync_time\<close> raises nothing: it returns with a warning printed and every
  attribute unchanged. The offset keeps the value it had before the call, and
  \<^verbatim>\<open>get_accurate_time\<close> returns the local clock time shifted by that offset: the local
  clock time itself when the offset is 0, as it is when no earlier sync has succeeded.
\<close>

theorem sync_time_unreachable:
  assumes "\<forall>server \<in> set (ntp_servers s). caught (net server)"
  shows "sync_time net s = Inr (s\<lparr>console := console s @ [SyncWarning]\<rparr>)
    \<and> time_offset (s\<lparr>console := console s @ [SyncWarning]\<rparr>) = time_offset s
    \<and> get_accurate_time (s\<lparr>console := console s @ [SyncWarning]\<rparr>) t = t + time_offset s
    \<and> (time_offset s = 0 \<longrightarrow> get_accurate_time (s\<lparr>console := console s @ [SyncWarning]\<rparr>) t = t)"
  using sync_servers_all_caught [OF assms] by (simp add: sync_time_def get_accurate_time_def)

theorem sync_time_unreachable_witness:
  "ntp_servers init_attributes
     = [''pool.ntp.org'', ''time.google.com'', ''time.windows.com'', ''time.apple.com'']
   \<and> caught (unreachable ''pool.ntp.org'') \<and> caught (unreachable ''time.google.com'')
   \<and> caught (unreachable ''time.windows.com'') \<and> caught (unreachable ''time.apple.com'')
   \<and> sync_time unreachable init_attributes = Inr (init_attributes\<lparr>console := [SyncWarning]\<rparr>)
   \<and> time_offset init_attributes = 0
   \<and> get_accurate_time (init_attributes\<lparr>console := [SyncWarning]\<rparr>) 1000 = 1000"
  using sync_time_unreachable [of init_attributes unreachable 1000]
  by (simp add: unreachable_def init_attributes_def)

text \<open>
  C9 as stated fails once a sync has succeeded. The first sync gets the offset 5/2 from the
  first server; at the next sync no server answers. The offset is still 5/2, not 0, and the
  accurate time at local clock time 1000 is not 1000.
\<close>

theorem sync_time_offset_counterexample:
  "sync_time (answering (5/2)) init_attributes
     = Inr (init_attributes\<lparr>time_offset := 5/2,
              console := [Synchronized ''pool.ntp.org'' (5/2)]\<rparr>)
   \<and> sync_time unreachable
       (init_attributes\<lparr>time_offset := 5/2, console := [Synchronized ''pool.ntp.org'' (5/2)]\<rparr>)
     = Inr (init_attributes\<lparr>time_offset := 5/2,
              console := [Synchronized ''pool.ntp.org'' (5/2), SyncWarning]\<rparr>)
   \<and> time_offset (init_attributes\<lparr>time_offset := 5/2,
        console := [Synchronized ''pool.ntp.org'' (5/2), SyncWarning]\<rparr>) \<noteq> 0
   \<and> get_accurate_time (init_attributes\<lparr>time_offset := 5/2,
        console := [Synchronized ''pool.ntp.org'' (5/2), SyncWarning]\<rparr>) 1000 \<noteq> 1000"
  by (simp add: sync_time_def answering_def unreachable_def init_attributes_def
      get_accurate_time_def)

section \<open>The timer thread\<close>

lemma resume_sleep:
  "0 < d \<Longrightarrow> is_running s \<Longrightarrow>
   resume (AtCountdown d) s = Some (s\<lparr>time_var := clock_text d\<rparr>, Sleeping d, [])"
  by (subst resume.simps) simp

lemma resume_expired:
  "\<not> (0 < d \<and> is_running s) \<Longrightarrow>
   resume (AtCountdown d) s =
     Option.bind
       (resume AtWhile (if is_running s then s\<lparr>is_work_session := \<not> is_work_session s\<rparr> else s))
       (\<lambda>(s', t, ls). Some (s', t, Expired d # ls))"
  by (subst resume.simps) auto

lemma resume_stopped: "\<not> is_running s \<Longrightarrow> resume AtWhile s = Some (s, Finished, [])"
  by (subst resume.simps) simp

lemma resume_work:
  "is_running s \<Longrightarrow> is_work_session s \<Longrightarrow>
   resume AtWhile s =
     Option.bind (resume (AtCountdown (work_duration s)) (enter_work s))
       (\<lambda>(s', t, ls). Some (s', t, Enter Work # ls))"
  by (subst resume.simps) simp

lemma resume_break:
  "is_running s \<Longrightarrow> \<not> is_work_session s \<Longrightarrow>
   resume AtWhile s =
     Option.bind (resume (AtCountdown (rest_duration s)) (enter_break s))
       (\<lambda>(s', t, ls). Some (s', t, Enter Break # ls))"
  by (subst resume.simps) simp

text \<open>Entering a phase changes neither the flags nor the durations.\<close>

lemma enter_work_frame [simp]:
  "is_running (enter_work s) = is_running s"
  "is_work_session (enter_work s) = is_work_session s"
  "work_duration (enter_work s) = work_duration s"
  "rest_duration (enter_work s) = rest_duration s"
  "time_offset (enter_work s) = time_offset s"
  "night_overlay (enter_work s) = night_overlay s"
  by (simp_all add: enter_work_def unblock_input_def unmute_audio_def destroy_overlay_def
      destroy_window_def listener_stop_def Let_def split: option.splits)

lemma enter_break_frame [simp]:
  "is_running (enter_break s) = is_running s"
  "is_work_session (enter_break s) = is_work_session s"
  "work_duration (enter_break s) = work_duration s"
  "rest_duration (enter_break s) = rest_duration s"
  "time_offset (enter_break s) = time_offset s"
  "night_overlay (enter_break s) = night_overlay s"
  by (simp_all add: enter_break_def block_input_def mute_audio_def create_overlay_def
      new_window_def new_listener_def listener_start_def Let_def split: option.splits)

text \<open>The three things a wake-up can do to a running session with positive durations.\<close>

lemma unmute_audio_frame [simp]:
  "blocking (unmute_audio s) = blocking s"
  "listeners (unmute_audio s) = listeners s"
  by (cases "audio s"; simp add: unmute_audio_def)+

lemma destroy_overlay_frame [simp]:
  "blocking (destroy_overlay s) = blocking s"
  "listeners (destroy_overlay s) = listeners s"
  by (cases "overlay s"; simp add: destroy_overlay_def destroy_window_def)+

lemma enter_work_unblocks:
  "blocking (enter_work s) = False"
  "length (listeners (enter_work s)) = length (listeners s)"
  "mouse_listener s = Some m \<Longrightarrow> m < length (listeners s) \<Longrightarrow>
     snd (listeners (enter_work s) ! m) = Stopped"
  "keyboard_listener s = Some k \<Longrightarrow> k < length (listeners s) \<Longrightarrow>
     snd (listeners (enter_work s) ! k) = Stopped"
  by (simp_all add: enter_work_def unblock_input_stops)

text \<open>Entering a phase and writing the display commute.\<close>

lemma listener_stop_time_var:
  "listener_stop i (s\<lparr>time_var := x\<rparr>) = (listener_stop i s)\<lparr>time_var := x\<rparr>"
  by (simp add: listener_stop_def)

lemma unblock_input_time_var:
  "unblock_input (s\<lparr>time_var := x\<rparr>) = (unblock_input s)\<lparr>time_var := x\<rparr>"
  by (cases "mouse_listener s"; cases "keyboard_listener s")
     (simp_all add: unblock_input_def listener_stop_def)

lemma unmute_audio_time_var:
  "unmute_audio (s\<lparr>time_var := x\<rparr>) = (unmute_audio s)\<lparr>time_var := x\<rparr>"
  by (cases "audio s") (simp_all add: unmute_audio_def)

lemma mute_audio_time_var:
  "mute_audio (s\<lparr>time_var := x\<rparr>) = (mute_audio s)\<lparr>time_var := x\<rparr>"
  by (cases "audio s") (simp_all add: mute_audio_def)

lemma destroy_overlay_time_var:
  "destroy_overlay (s\<lparr>time_var := x\<rparr>) = (destroy_overlay s)\<lparr>time_var := x\<rparr>"
  by (cases "overlay s") (simp_all add: destroy_overlay_def destroy_window_def)

lemma create_overlay_time_var:
  "create_overlay (s\<lparr>time_var := x\<rparr>) = (create_overlay s)\<lparr>time_var := x\<rparr>"
  by (simp add: create_overlay_def new_window_def)

lemma block_input_time_var:
  "block_input (s\<lparr>time_var := x\<rparr>) = (block_input s)\<lparr>time_var := x\<rparr>"
  by (simp add: block_input_def new_listener_def listener_start_def)

lemma enter_work_time_var:
  "enter_work (s\<lparr>time_var := x\<rparr>) = (enter_work s)\<lparr>time_var := x\<rparr>"
proof -
  have "(s\<lparr>time_var := x\<rparr>)\<lparr>status_var := ''Work Session''\<rparr>
      = (s\<lparr>status_var := ''Work Session''\<rparr>)\<lparr>time_var := x\<rparr>"
    by simp
  then show ?thesis
    by (simp only: enter_work_def Let_def unblock_input_time_var unmute_audio_time_var
        destroy_overlay_time_var)
qed

lemma enter_break_time_var:
  "enter_break (s\<lparr>time_var := x\<rparr>) = (enter_break s)\<lparr>time_var := x\<rparr>"
proof -
  have "(s\<lparr>time_var := x\<rparr>)\<lparr>status_var := ''Break Time''\<rparr>
      = (s\<lparr>status_var := ''Break Time''\<rparr>)\<lparr>time_var := x\<rparr>"
    by simp
  then show ?thesis
    by (simp only: enter_break_def Let_def create_overlay_time_var block_input_time_var
        mute_audio_time_var)
qed

lemma enter_work_time_var_phase:
  "enter_work (s\<lparr>time_var := x, is_work_session := b\<rparr>)
     = (enter_work (s\<lparr>is_work_session := b\<rparr>))\<lparr>time_var := x\<rparr>"
proof -
  have "s\<lparr>time_var := x, is_work_session := b\<rparr> = (s\<lparr>is_work_session := b\<rparr>)\<lparr>time_var := x\<rparr>"
    by simp
  then show ?thesis by (simp only: enter_work_time_var)
qed

lemma enter_break_time_var_phase:
  "enter_break (s\<lparr>time_var := x, is_work_session := b\<rparr>)
     = (enter_break (s\<lparr>is_work_session := b\<rparr>))\<lparr>time_var := x\<rparr>"
proof -
  have "s\<lparr>time_var := x, is_work_session := b\<rparr> = (s\<lparr>is_work_session := b\<rparr>)\<lparr>time_var := x\<rparr>"
    by simp
  then show ?thesis by (simp only: enter_break_time_var)
qed

text \<open>What one wake-up does to a running session with positive durations.\<close>

lemma resume_tick:
  "1 < d \<Longrightarrow> is_running s \<Longrightarrow>
   resume (AtCountdown (d - 1)) s = Some (s\<lparr>time_var := clock_text (d - 1)\<rparr>, Sleeping (d - 1), [])"
  by (simp add: resume_sleep)

lemma resume_first:
  "is_running s \<Longrightarrow> is_work_session s \<Longrightarrow> 0 < work_duration s \<Longrightarrow>
   resume AtWhile s =
     Some ((enter_work s)\<lparr>time_var := clock_text (work_duration s)\<rparr>,
           Sleeping (work_duration s), [Enter Work])"
  by (simp add: resume_work resume_sleep)

lemma resume_work_to_break:
  "is_running s \<Longrightarrow> is_work_session s \<Longrightarrow> 0 < rest_duration s \<Longrightarrow>
   resume (AtCountdown 0) s =
     Some ((enter_break (s\<lparr>is_work_session := False\<rparr>))\<lparr>time_var := clock_text (rest_duration s)\<rparr>,
           Sleeping (rest_duration s), [Expired 0, Enter Break])"
  by (simp add: resume_expired resume_break resume_sleep)

lemma resume_break_to_work:
  "is_running s \<Longrightarrow> \<not> is_work_session s \<Longrightarrow> 0 < work_duration s \<Longrightarrow>
   resume (AtCountdown 0) s =
     Some ((enter_work (s\<lparr>is_work_session := True\<rparr>))\<lparr>time_var := clock_text (work_duration s)\<rparr>,
           Sleeping (work_duration s), [Expired 0, Enter Work])"
  by (simp add: resume_expired resume_work resume_sleep)

section \<open>Runs\<close>

lemma init_booted: "init (Some speaker) unreachable = Inr booted"
  by (simp add: init_def booted_def sync_time_def init_audio_control_def init_attributes_def
      unreachable_def)

lemma run_events_append:
  "run_events hour (es @ es') S =
     Option.bind (run_events hour es S)
       (\<lambda>(S1, ls1). Option.bind (run_events hour es' S1) (\<lambda>(S2, ls2). Some (S2, ls1 @ ls2)))"
proof (induction es arbitrary: S)
  case Nil
  then show ?case by (cases "run_events hour es' S") auto
next
  case (Cons e es)
  show ?case
  proof (cases "exec hour e S")
    case None
    then show ?thesis by simp
  next
    case (Some r)
    obtain S1 ls1 where r: "r = (S1, ls1)" by (cases r)
    show ?thesis
    proof (cases "run_events hour es S1")
      case None
      then show ?thesis using Some r Cons [of S1] by simp
    next
      case (Some r2)
      obtain S2 ls2 where r2: "r2 = (S2, ls2)" by (cases r2)
      show ?thesis
      proof (cases "run_events hour es' S2")
        case None
        then show ?thesis using \<open>exec hour e S = Some r\<close> r Some r2 Cons [of S1] by simp
      next
        case (Some r3)
        then show ?thesis using \<open>exec hour e S = Some r\<close> r \<open>run_events hour es S1 = Some r2\<close> r2 Cons [of S1]
          by (cases r3) simp
      qed
    qed
  qed
qed

lemma run_events_after:
  "run_events hour es S = Some (S1, ls1) \<Longrightarrow> run_events hour es' S1 = Some (S2, ls2) \<Longrightarrow>
   run_events hour (es @ es') S = Some (S2, ls1 @ ls2)"
  by (simp add: run_events_append)

lemma run_events_single: "run_events hour [e] S = exec hour e S"
  by (cases "exec hour e S") auto

lemma wake_sleeping:
  assumes "i < length (threads S)" "threads S ! i = Sleeping d"
  shows "wake i S =
    Option.bind (resume (AtCountdown (d - 1)) (self S))
      (\<lambda>(s', t, ls). Some (S\<lparr>self := s', threads := (threads S)[i := t]\<rparr>, ls))"
  using assms by (simp add: wake_def)

lemma wake_tick:
  assumes "i < length (threads S)" "threads S ! i = Sleeping d" "1 < d" "is_running (self S)"
  shows "wake i S =
    Some (S\<lparr>self := (self S)\<lparr>time_var := clock_text (d - 1)\<rparr>,
            threads := (threads S)[i := Sleeping (d - 1)]\<rparr>, [])"
  using assms by (simp add: wake_sleeping resume_tick)

lemma wakes_countdown:
  assumes "i < length (threads S)" "threads S ! i = Sleeping d" "is_running (self S)"
  shows "0 < k \<Longrightarrow> int k < d \<Longrightarrow>
    run_events hour (replicate k (Wake i)) S =
      Some (S\<lparr>self := (self S)\<lparr>time_var := clock_text (d - int k)\<rparr>,
              threads := (threads S)[i := Sleeping (d - int k)]\<rparr>, [])"
proof (induction k)
  case 0
  then show ?case by simp
next
  case (Suc k)
  show ?case
  proof (cases "k = 0")
    case True
    then show ?thesis using Suc.prems assms by (simp add: exec_def wake_tick)
  next
    case False
    let ?S = "S\<lparr>self := (self S)\<lparr>time_var := clock_text (d - int k)\<rparr>,
              threads := (threads S)[i := Sleeping (d - int k)]\<rparr>"
    have ih: "run_events hour (replicate k (Wake i)) S = Some (?S, [])"
      using Suc False by simp
    have step: "wake i ?S =
      Some (?S\<lparr>self := (self ?S)\<lparr>time_var := clock_text (d - int k - 1)\<rparr>,
            threads := (threads ?S)[i := Sleeping (d - int k - 1)]\<rparr>, [])"
      using assms Suc.prems by (intro wake_tick) simp_all
    have "replicate (Suc k) (Wake i) = replicate k (Wake i) @ [Wake i]"
      by (simp add: replicate_append_same)
    then show ?thesis
      using ih step by (simp only: run_events_append) (simp add: exec_def algebra_simps)
  qed
qed

lemma start_first_wake:
  assumes "0 < work_duration (self S)"
  shows "run_events hour [Start, Wake (length (threads S))] S =
    Some (S\<lparr>self := (enter_work ((self S)\<lparr>is_running := True, is_work_session := True\<rparr>))
                     \<lparr>time_var := clock_text (work_duration (self S))\<rparr>,
            threads := threads S @ [Sleeping (work_duration (self S))]\<rparr>, [Enter Work])"
  using assms by (simp add: exec_def start_timer_def wake_def resume_first)

lemma wake_work_to_break:
  assumes "i < length (threads S)" "threads S ! i = Sleeping 1" "is_running (self S)"
    "is_work_session (self S)" "0 < rest_duration (self S)"
  shows "wake i S =
    Some (S\<lparr>self := (enter_break ((self S)\<lparr>is_work_session := False\<rparr>))
                     \<lparr>time_var := clock_text (rest_duration (self S))\<rparr>,
            threads := (threads S)[i := Sleeping (rest_duration (self S))]\<rparr>,
          [Expired 0, Enter Break])"
  using assms by (simp add: wake_sleeping resume_work_to_break)

lemma wake_break_to_work:
  assumes "i < length (threads S)" "threads S ! i = Sleeping 1" "is_running (self S)"
    "\<not> is_work_session (self S)" "0 < work_duration (self S)"
  shows "wake i S =
    Some (S\<lparr>self := (enter_work ((self S)\<lparr>is_work_session := True\<rparr>))
                     \<lparr>time_var := clock_text (work_duration (self S))\<rparr>,
            threads := (threads S)[i := Sleeping (work_duration (self S))]\<rparr>,
          [Expired 0, Enter Work])"
  using assms by (simp add: wake_sleeping resume_break_to_work)

lemma wakes_until_last:
  assumes "i < length (threads S)" "threads S ! i = Sleeping (int (Suc k))" "is_running (self S)"
  shows "run_events hour (replicate (Suc k) (Wake i)) S =
    wake i (if k = 0 then S
            else S\<lparr>self := (self S)\<lparr>time_var := clock_text 1\<rparr>,
                   threads := (threads S)[i := Sleeping 1]\<rparr>)"
proof (cases "k = 0")
  case True
  then show ?thesis by (simp only: replicate.simps run_events_single) (simp add: exec_def)
next
  case False
  have "run_events hour (replicate k (Wake i)) S =
      Some (S\<lparr>self := (self S)\<lparr>time_var := clock_text (int (Suc k) - int k)\<rparr>,
              threads := (threads S)[i := Sleeping (int (Suc k) - int k)]\<rparr>, [])"
    using assms False by (intro wakes_countdown) simp_all
  moreover have "int (Suc k) - int k = 1" by simp
  moreover have "replicate (Suc k) (Wake i) = replicate k (Wake i) @ [Wake i]"
    by (simp add: replicate_append_same)
  ultimately have "run_events hour (replicate (Suc k) (Wake i)) S =
      Option.bind (run_events hour [Wake i]
          (S\<lparr>self := (self S)\<lparr>time_var := clock_text 1\<rparr>, threads := (threads S)[i := Sleeping 1]\<rparr>))
        (\<lambda>(S2, ls2). Some (S2, [] @ ls2))"
    by (simp only: run_events_append Option.bind.simps prod.case)
  also have "\<dots> = wake i
      (S\<lparr>self := (self S)\<lparr>time_var := clock_text 1\<rparr>, threads := (threads S)[i := Sleeping 1]\<rparr>)"
    by (simp only: run_events_single) (auto simp: exec_def split: Option.bind_splits)
  finally show ?thesis using False by simp
qed

lemma work_phase:
  assumes "i < length (threads S)" "threads S ! i = Sleeping d" "0 < d" "is_running (self S)"
    "is_work_session (self S)" "0 < rest_duration (self S)"
  shows "run_events hour (replicate (nat d) (Wake i)) S =
    Some (S\<lparr>self := (enter_break ((self S)\<lparr>is_work_session := False\<rparr>))
                     \<lparr>time_var := clock_text (rest_duration (self S))\<rparr>,
            threads := (threads S)[i := Sleeping (rest_duration (self S))]\<rparr>,
          [Expired 0, Enter Break])"
proof -
  have "d = int (Suc (nat d - 1))" using \<open>0 < d\<close> by simp
  then obtain k where k: "d = int (Suc k)" ..
  then have n: "nat d = Suc k" by simp
  show ?thesis
  proof (cases "k = 0")
    case True
    then show ?thesis
      using assms k unfolding n by (simp only: wakes_until_last) (simp add: wake_work_to_break)
  next
    case False
    let ?S = "S\<lparr>self := (self S)\<lparr>time_var := clock_text 1\<rparr>, threads := (threads S)[i := Sleeping 1]\<rparr>"
    have "run_events hour (replicate (nat d) (Wake i)) S = wake i ?S"
      using assms k False unfolding n by (simp only: wakes_until_last) simp
    also have "\<dots> = Some (?S\<lparr>self := (enter_break ((self ?S)\<lparr>is_work_session := False\<rparr>))
                     \<lparr>time_var := clock_text (rest_duration (self ?S))\<rparr>,
            threads := (threads ?S)[i := Sleeping (rest_duration (self ?S))]\<rparr>,
          [Expired 0, Enter Break])"
      using assms by (intro wake_work_to_break) simp_all
    finally show ?thesis by (simp add: enter_break_time_var_phase)
  qed
qed

lemma break_phase:
  assumes "i < length (threads S)" "threads S ! i = Sleeping d" "0 < d" "is_running (self S)"
    "\<not> is_work_session (self S)" "0 < work_duration (self S)"
  shows "run_events hour (replicate (nat d) (Wake i)) S =
    Some (S\<lparr>self := (enter_work ((self S)\<lparr>is_work_session := True\<rparr>))
                     \<lparr>time_var := clock_text (work_duration (self S))\<rparr>,
            threads := (threads S)[i := Sleeping (work_duration (self S))]\<rparr>,
          [Expired 0, Enter Work])"
proof -
  have "d = int (Suc (nat d - 1))" using \<open>0 < d\<close> by simp
  then obtain k where k: "d = int (Suc k)" ..
  then have n: "nat d = Suc k" by simp
  show ?thesis
  proof (cases "k = 0")
    case True
    then show ?thesis
      using assms k unfolding n by (simp only: wakes_until_last) (simp add: wake_break_to_work)
  next
    case False
    let ?S = "S\<lparr>self := (self S)\<lparr>time_var := clock_text 1\<rparr>, threads := (threads S)[i := Sleeping 1]\<rparr>"
    have "run_events hour (replicate (nat d) (Wake i)) S = wake i ?S"
      using assms k False unfolding n by (simp only: wakes_until_last) simp
    also have "\<dots> = Some (?S\<lparr>self := (enter_work ((self ?S)\<lparr>is_work_session := True\<rparr>))
                     \<lparr>time_var := clock_text (work_duration (self ?S))\<rparr>,
            threads := (threads ?S)[i := Sleeping (work_duration (self ?S))]\<rparr>,
          [Expired 0, Enter Work])"
      using assms by (intro wake_break_to_work) simp_all
    finally show ?thesis by (simp add: enter_work_time_var_phase)
  qed
qed

section \<open>The countdown and the phase sequence\<close>

lemma spec_example_trace:
  "observe 0 (run_events utc_hour [Start, Wake 0] spec_example)
     = Some (Work, Some (Sleeping 2), ''00:02'', [Enter Work])"
  "observe 0 (run_events utc_hour [Start, Wake 0, Wake 0] spec_example)
     = Some (Work, Some (Sleeping 1), ''00:01'', [Enter Work])"
  "observe 0 (run_events utc_hour [Start, Wake 0, Wake 0, Wake 0] spec_example)
     = Some (Break, Some (Sleeping 1), ''00:01'', [Enter Work, Expired 0, Enter Break])"
  "observe 0 (run_events utc_hour [Start, Wake 0, Wake 0, Wake 0, Wake 0] spec_example)
     = Some (Work, Some (Sleeping 2), ''00:02'',
             [Enter Work, Expired 0, Enter Break, Expired 0, Enter Work])"
  by code_simp+

lemma spec_example_config:
  "work_duration (self spec_example) = 2" "rest_duration (self spec_example) = 1"
  "threads spec_example = []"
  by (simp_all add: spec_example_def booted_def)

text \<open>
  C6. For positive durations, after \<^verbatim>\<open>start_timer\<close> and the first run of the new thread
  (time 0) the session is in the work phase with the whole work duration remaining; after
  \<open>k\<close> further seconds, \<open>k\<close> less than the work duration, it is still in the work phase with
  \<open>k\<close> less remaining and no transition has happened; after exactly the work duration it is
  in the break phase with the whole break duration remaining, \<^verbatim>\<open>countdown\<close> has returned
  once, with its \<^verbatim>\<open>duration\<close> equal to 0, and there has been exactly one transition from
  work to break; after the break duration more it is back in the work phase.
\<close>

theorem countdown_work_to_break:
  assumes "0 < work_duration (self S)" "0 < rest_duration (self S)" "k < nat (work_duration (self S))"
  shows
    "observe (length (threads S))
       (run_events hour ([Start, Wake (length (threads S))] @ replicate k (Wake (length (threads S)))) S)
     = Some (Work, Some (Sleeping (work_duration (self S) - int k)),
             clock_text (work_duration (self S) - int k), [Enter Work])
   \<and> observe (length (threads S))
       (run_events hour ([Start, Wake (length (threads S))]
          @ replicate (nat (work_duration (self S))) (Wake (length (threads S)))) S)
     = Some (Break, Some (Sleeping (rest_duration (self S))),
             clock_text (rest_duration (self S)), [Enter Work, Expired 0, Enter Break])
   \<and> observe (length (threads S))
       (run_events hour (([Start, Wake (length (threads S))]
          @ replicate (nat (work_duration (self S))) (Wake (length (threads S))))
          @ replicate (nat (rest_duration (self S))) (Wake (length (threads S)))) S)
     = Some (Work, Some (Sleeping (work_duration (self S))),
             clock_text (work_duration (self S)),
             [Enter Work, Expired 0, Enter Break, Expired 0, Enter Work])"
proof -
  let ?i = "length (threads S)"
  let ?w = "work_duration (self S)"
  let ?r = "rest_duration (self S)"
  let ?S1 = "S\<lparr>self := (enter_work ((self S)\<lparr>is_running := True, is_work_session := True\<rparr>))
                     \<lparr>time_var := clock_text ?w\<rparr>,
            threads := threads S @ [Sleeping ?w]\<rparr>"
  let ?S2 = "?S1\<lparr>self := (enter_break ((self ?S1)\<lparr>is_work_session := False\<rparr>))
                     \<lparr>time_var := clock_text (rest_duration (self ?S1))\<rparr>,
            threads := (threads ?S1)[?i := Sleeping (rest_duration (self ?S1))]\<rparr>"
  let ?S3 = "?S2\<lparr>self := (enter_work ((self ?S2)\<lparr>is_work_session := True\<rparr>))
                     \<lparr>time_var := clock_text (work_duration (self ?S2))\<rparr>,
            threads := (threads ?S2)[?i := Sleeping (work_duration (self ?S2))]\<rparr>"
  have first: "run_events hour [Start, Wake ?i] S = Some (?S1, [Enter Work])"
    using assms(1) by (rule start_first_wake)
  have S1: "?i < length (threads ?S1)" "threads ?S1 ! ?i = Sleeping ?w" "is_running (self ?S1)"
    "is_work_session (self ?S1)" "0 < rest_duration (self ?S1)"
    using assms by simp_all
  have a: "observe ?i (run_events hour ([Start, Wake ?i] @ replicate k (Wake ?i)) S)
      = Some (Work, Some (Sleeping (?w - int k)), clock_text (?w - int k), [Enter Work])"
  proof (cases "k = 0")
    case True
    then show ?thesis
      using first by (simp only: replicate.simps append_Nil2)
        (simp add: observe_def phase_of_def thread_state_def)
  next
    case False
    have "run_events hour (replicate k (Wake ?i)) ?S1 =
        Some (?S1\<lparr>self := (self ?S1)\<lparr>time_var := clock_text (?w - int k)\<rparr>,
                threads := (threads ?S1)[?i := Sleeping (?w - int k)]\<rparr>, [])"
      using S1(1-3) False assms(3) by (intro wakes_countdown) simp_all
    from run_events_after [OF first this] show ?thesis
      by (simp add: observe_def phase_of_def thread_state_def)
  qed
  have work: "run_events hour (replicate (nat ?w) (Wake ?i)) ?S1 = Some (?S2, [Expired 0, Enter Break])"
    using S1 assms(1) by (intro work_phase) simp_all
  have to_break: "run_events hour ([Start, Wake ?i] @ replicate (nat ?w) (Wake ?i)) S
      = Some (?S2, [Enter Work] @ [Expired 0, Enter Break])"
    by (rule run_events_after [OF first work])
  have b: "observe ?i (run_events hour ([Start, Wake ?i] @ replicate (nat ?w) (Wake ?i)) S)
      = Some (Break, Some (Sleeping ?r), clock_text ?r, [Enter Work, Expired 0, Enter Break])"
    unfolding to_break by (simp add: observe_def phase_of_def thread_state_def)
  have S2: "?i < length (threads ?S2)" "threads ?S2 ! ?i = Sleeping ?r" "is_running (self ?S2)"
    "\<not> is_work_session (self ?S2)" "0 < work_duration (self ?S2)"
    using assms by simp_all
  have rest: "run_events hour (replicate (nat ?r) (Wake ?i)) ?S2 = Some (?S3, [Expired 0, Enter Work])"
    using S2 assms(2) by (intro break_phase) simp_all
  have to_work: "run_events hour (([Start, Wake ?i] @ replicate (nat ?w) (Wake ?i))
        @ replicate (nat ?r) (Wake ?i)) S
      = Some (?S3, ([Enter Work] @ [Expired 0, Enter Break]) @ [Expired 0, Enter Work])"
    by (rule run_events_after [OF to_break rest])
  have c: "observe ?i (run_events hour (([Start, Wake ?i] @ replicate (nat ?w) (Wake ?i))
        @ replicate (nat ?r) (Wake ?i)) S)
      = Some (Work, Some (Sleeping ?w), clock_text ?w,
              [Enter Work, Expired 0, Enter Break, Expired 0, Enter Work])"
    unfolding to_work by (simp add: observe_def phase_of_def thread_state_def)
  from a b c show ?thesis by blast
qed

theorem countdown_work_to_break_witness:
  "0 < work_duration (self spec_example) \<and> 0 < rest_duration (self spec_example)
   \<and> (0::nat) < nat (work_duration (self spec_example))
   \<and> observe 0 (run_events utc_hour [Start, Wake 0] spec_example)
       = Some (Work, Some (Sleeping 2), ''00:02'', [Enter Work])
   \<and> observe 0 (run_events utc_hour [Start, Wake 0, Wake 0, Wake 0] spec_example)
       = Some (Break, Some (Sleeping 1), ''00:01'', [Enter Work, Expired 0, Enter Break])
   \<and> observe 0 (run_events utc_hour [Start, Wake 0, Wake 0, Wake 0, Wake 0] spec_example)
       = Some (Work, Some (Sleeping 2), ''00:02'',
               [Enter Work, Expired 0, Enter Break, Expired 0, Enter Work])
   \<and> clock_text 2 = ''00:02'' \<and> clock_text 1 = ''00:01''"
proof -
  have c: "clock_text 2 = ''00:02''" "clock_text 1 = ''00:01''" by code_simp+
  show ?thesis
    using countdown_work_to_break [of spec_example 0 utc_hour] c
    by (simp add: spec_example_config numeral_2_eq_2)
qed

lemma phases_append: "phases (xs @ ys) = phases xs @ phases ys"
  by (induction xs rule: phases.induct) simp_all

lemma wake_in_session:
  assumes "in_session i S"
  shows "\<exists>S' ls. wake i S = Some (S', ls) \<and> in_session i S'
    \<and> (ls = [] \<and> phase_of (self S') = phase_of (self S)
       \<or> phases ls = [phase_of (self S')] \<and> phase_of (self S') \<noteq> phase_of (self S))"
proof -
  from assms obtain d where d: "i < length (threads S)" "threads S ! i = Sleeping d" "0 < d"
    "is_running (self S)" "0 < work_duration (self S)" "0 < rest_duration (self S)"
    by (auto simp: in_session_def split: tstate.splits)
  show ?thesis
  proof (cases "1 < d")
    case True
    with d show ?thesis
      by (simp add: wake_tick in_session_def phase_of_def)
  next
    case False
    with d have d1: "threads S ! i = Sleeping 1" by simp
    show ?thesis
    proof (cases "is_work_session (self S)")
      case True
      with d d1 show ?thesis
        by (simp add: wake_work_to_break in_session_def phase_of_def)
    next
      case False
      with d d1 show ?thesis
        by (simp add: wake_break_to_work in_session_def phase_of_def)
    qed
  qed
qed

lemma session_alternates:
  "in_session i S \<Longrightarrow>
   \<exists>S' ls. run_events hour (replicate n (Wake i)) S = Some (S', ls) \<and> in_session i S'
     \<and> alternating (phase_of (self S) # phases ls)
     \<and> last (phase_of (self S) # phases ls) = phase_of (self S')"
proof (induction n arbitrary: S)
  case 0
  then show ?case by simp
next
  case (Suc n)
  from wake_in_session [OF Suc.prems] obtain S1 l1 where
    w: "wake i S = Some (S1, l1)" and s1: "in_session i S1" and
    l1: "l1 = [] \<and> phase_of (self S1) = phase_of (self S)
       \<or> phases l1 = [phase_of (self S1)] \<and> phase_of (self S1) \<noteq> phase_of (self S)"
    by blast
  from Suc.IH [OF s1] obtain S' ls where
    r: "run_events hour (replicate n (Wake i)) S1 = Some (S', ls)" and s': "in_session i S'" and
    a: "alternating (phase_of (self S1) # phases ls)" and
    e: "last (phase_of (self S1) # phases ls) = phase_of (self S')"
    by blast
  have run: "run_events hour (replicate (Suc n) (Wake i)) S = Some (S', l1 @ ls)"
    using w r by (simp add: exec_def)
  from l1 show ?case
  proof
    assume "l1 = [] \<and> phase_of (self S1) = phase_of (self S)"
    with run s' a e show ?thesis by simp
  next
    assume "phases l1 = [phase_of (self S1)] \<and> phase_of (self S1) \<noteq> phase_of (self S)"
    with run s' a e show ?thesis by (auto simp: phases_append)
  qed
qed

lemma full_cycle:
  assumes "working i S"
  shows "\<exists>S'. run_events hour
      (replicate (nat (work_duration (self S)) + nat (rest_duration (self S))) (Wake i)) S
      = Some (S', [Expired 0, Enter Break, Expired 0, Enter Work])
    \<and> working i S' \<and> work_duration (self S') = work_duration (self S)
    \<and> rest_duration (self S') = rest_duration (self S)"
proof -
  let ?w = "work_duration (self S)"
  let ?r = "rest_duration (self S)"
  let ?S2 = "S\<lparr>self := (enter_break ((self S)\<lparr>is_work_session := False\<rparr>))
                     \<lparr>time_var := clock_text (rest_duration (self S))\<rparr>,
            threads := (threads S)[i := Sleeping (rest_duration (self S))]\<rparr>"
  let ?S3 = "?S2\<lparr>self := (enter_work ((self ?S2)\<lparr>is_work_session := True\<rparr>))
                     \<lparr>time_var := clock_text (work_duration (self ?S2))\<rparr>,
            threads := (threads ?S2)[i := Sleeping (work_duration (self ?S2))]\<rparr>"
  from assms have S: "i < length (threads S)" "threads S ! i = Sleeping ?w" "0 < ?w"
    "is_running (self S)" "is_work_session (self S)" "0 < ?r"
    by (simp_all add: working_def)
  have work: "run_events hour (replicate (nat ?w) (Wake i)) S = Some (?S2, [Expired 0, Enter Break])"
    using S by (intro work_phase) simp_all
  have S2: "i < length (threads ?S2)" "threads ?S2 ! i = Sleeping ?r" "is_running (self ?S2)"
    "\<not> is_work_session (self ?S2)" "0 < work_duration (self ?S2)"
    using S by simp_all
  have rest: "run_events hour (replicate (nat ?r) (Wake i)) ?S2 = Some (?S3, [Expired 0, Enter Work])"
    using S2 S(6) by (intro break_phase) simp_all
  have "run_events hour (replicate (nat ?w) (Wake i) @ replicate (nat ?r) (Wake i)) S
      = Some (?S3, [Expired 0, Enter Break] @ [Expired 0, Enter Work])"
    by (rule run_events_after [OF work rest])
  then have "run_events hour (replicate (nat ?w + nat ?r) (Wake i)) S
      = Some (?S3, [Expired 0, Enter Break, Expired 0, Enter Work])"
    by (simp add: replicate_add)
  moreover have "working i ?S3" using S by (simp add: working_def)
  moreover have "work_duration (self ?S3) = ?w" "rest_duration (self ?S3) = ?r" by simp_all
  ultimately show ?thesis by blast
qed

lemma cycles:
  "working i S \<Longrightarrow>
   \<exists>S' ls. run_events hour
       (replicate (c * (nat (work_duration (self S)) + nat (rest_duration (self S)))) (Wake i)) S
       = Some (S', ls)
     \<and> phases ls = concat (replicate c [Break, Work])"
proof (induction c arbitrary: S)
  case 0
  then show ?case by simp
next
  case (Suc c)
  let ?n = "nat (work_duration (self S)) + nat (rest_duration (self S))"
  from full_cycle [OF Suc.prems] obtain S1 where
    one: "run_events hour (replicate ?n (Wake i)) S
      = Some (S1, [Expired 0, Enter Break, Expired 0, Enter Work])" and
    w1: "working i S1" and
    d: "work_duration (self S1) = work_duration (self S)" "rest_duration (self S1) = rest_duration (self S)"
    by blast
  from Suc.IH [OF w1] d obtain S' ls where
    more: "run_events hour (replicate (c * ?n) (Wake i)) S1 = Some (S', ls)" and
    ps: "phases ls = concat (replicate c [Break, Work])"
    by auto
  have "run_events hour (replicate ?n (Wake i) @ replicate (c * ?n) (Wake i)) S
      = Some (S', [Expired 0, Enter Break, Expired 0, Enter Work] @ ls)"
    by (rule run_events_after [OF one more])
  then have "run_events hour (replicate (Suc c * ?n) (Wake i)) S
      = Some (S', [Expired 0, Enter Break, Expired 0, Enter Work] @ ls)"
    by (simp add: replicate_add)
  with ps show ?case by auto
qed

text \<open>
  A session that runs undisturbed, with positive durations and no other call of
  \<^verbatim>\<open>start_timer\<close> or \<^verbatim>\<open>stop_timer\<close> while it runs, enters phases in strict alternation,
  however long it runs: after any number \<open>n\<close> of wake-ups the run has returned and no two
  consecutive phases entered are equal. And it does cycle: after \<open>c\<close> full cycles the
  phases entered are Work followed by \<open>c\<close> times Break, Work.
\<close>

lemma undisturbed_session_alternates:
  assumes "0 < work_duration (self S)" "0 < rest_duration (self S)"
  shows "(\<exists>S' ls. run_events hour (Start # replicate n (Wake (length (threads S)))) S = Some (S', ls)
           \<and> alternating (phases ls))
    \<and> (\<exists>S' ls. run_events hour
           (Start # replicate
              (Suc (c * (nat (work_duration (self S)) + nat (rest_duration (self S)))))
              (Wake (length (threads S)))) S = Some (S', ls)
           \<and> phases ls = Work # concat (replicate c [Break, Work]))"
proof -
  let ?i = "length (threads S)"
  let ?w = "work_duration (self S)"
  let ?S1 = "S\<lparr>self := (enter_work ((self S)\<lparr>is_running := True, is_work_session := True\<rparr>))
                     \<lparr>time_var := clock_text ?w\<rparr>,
            threads := threads S @ [Sleeping ?w]\<rparr>"
  have first: "run_events hour [Start, Wake ?i] S = Some (?S1, [Enter Work])"
    using assms(1) by (rule start_first_wake)
  have s1: "in_session ?i ?S1" using assms by (simp add: in_session_def)
  have w1: "working ?i ?S1" using assms by (simp add: working_def)
  have p1: "phase_of (self ?S1) = Work" by (simp add: phase_of_def)
  have a: "\<exists>S' ls. run_events hour (Start # replicate n (Wake ?i)) S = Some (S', ls)
           \<and> alternating (phases ls)"
  proof (cases n)
    case 0
    then show ?thesis by (simp add: exec_def)
  next
    case (Suc m)
    from session_alternates [OF s1, of hour m] p1 obtain S' ls where
      r: "run_events hour (replicate m (Wake ?i)) ?S1 = Some (S', ls)" and
      alt: "alternating (Work # phases ls)"
      by auto
    have "run_events hour ([Start, Wake ?i] @ replicate m (Wake ?i)) S = Some (S', [Enter Work] @ ls)"
      by (rule run_events_after [OF first r])
    with Suc alt show ?thesis by auto
  qed
  have b: "\<exists>S' ls. run_events hour
           (Start # replicate (Suc (c * (nat ?w + nat (rest_duration (self S))))) (Wake ?i)) S
             = Some (S', ls)
           \<and> phases ls = Work # concat (replicate c [Break, Work])"
  proof -
    from cycles [OF w1, of hour c] obtain S' ls where
      r: "run_events hour (replicate (c * (nat ?w + nat (rest_duration (self S)))) (Wake ?i)) ?S1
          = Some (S', ls)" and
      ps: "phases ls = concat (replicate c [Break, Work])"
      by auto
    have "run_events hour ([Start, Wake ?i]
          @ replicate (c * (nat ?w + nat (rest_duration (self S)))) (Wake ?i)) S
        = Some (S', [Enter Work] @ ls)"
      by (rule run_events_after [OF first r])
    with ps show ?thesis by auto
  qed
  from a b show ?thesis by blast
qed

lemma undisturbed_session_alternates_example:
  "0 < work_duration (self spec_example) \<and> 0 < rest_duration (self spec_example)
   \<and> observe 0 (run_events utc_hour (Start # replicate 4 (Wake 0)) spec_example)
       = Some (Work, Some (Sleeping 2), ''00:02'',
               [Enter Work, Expired 0, Enter Break, Expired 0, Enter Work])
   \<and> alternating (phases [Enter Work, Expired 0, Enter Break, Expired 0, Enter Work])
   \<and> phases [Enter Work, Expired 0, Enter Break, Expired 0, Enter Work]
       = Work # concat (replicate 1 [Break, Work])"
proof -
  have r: "replicate 4 (Wake 0) = [Wake 0, Wake 0, Wake 0, Wake 0]"
    by (simp add: numeral_eq_Suc)
  show ?thesis
    using undisturbed_session_alternates [of spec_example utc_hour 4 1] spec_example_trace(4)
    by (simp add: spec_example_config r)
qed

section \<open>The night monitor\<close>

lemma create_night_overlay_again:
  "night_overlay s \<noteq> None \<Longrightarrow> create_night_overlay s = s"
  by (simp add: create_night_overlay_def)

lemma create_night_overlay_first:
  assumes "night_overlay s = None"
  shows "night_overlay (create_night_overlay s) = Some (length (windows s))"
    "listeners (create_night_overlay s) = listeners s @ [(Mouse, Started), (Keyboard, Started)]"
    "block_input_calls (create_night_overlay s) = block_input_calls s + 1"
    "blocking (create_night_overlay s)"
  using assms
  by (simp_all add: create_night_overlay_def new_window_def block_input_listeners
      block_input_calls_def block_input_refs)

lemma create_night_overlay_time_offset [simp]:
  "time_offset (create_night_overlay s) = time_offset s"
  by (simp add: create_night_overlay_def new_window_def)

lemma polls_with_overlay:
  assumes "night_overlay (self S) \<noteq> None" "queue S = []"
    "\<forall>t \<in> set ts. is_night_time hour (self S) t"
  shows "run_events hour (concat (map (\<lambda>t. [Poll t, Gui]) ts)) S = Some (S, [])"
  using assms
proof (induction ts)
  case Nil
  then show ?case by simp
next
  case (Cons t ts)
  then have "monitor_time hour t S = S" by (simp add: monitor_time_def)
  moreover have "mainloop_step S = S" using Cons.prems by (simp add: mainloop_step_def)
  ultimately show ?case using Cons by (simp add: exec_def)
qed

lemma first_poll:
  assumes "night_overlay (self S) = None" "queue S = []" "is_night_time hour (self S) t"
  shows "run_events hour [Poll t, Gui] S = Some (S\<lparr>self := create_night_overlay (self S)\<rparr>, [])"
proof -
  have "S\<lparr>self := create_night_overlay (self S), queue := []\<rparr>
      = S\<lparr>self := create_night_overlay (self S)\<rparr>"
    using assms(2) by (cases S) simp
  then show ?thesis
    using assms by (simp add: exec_def monitor_time_def mainloop_step_def)
qed

text \<open>
  The check of \<^verbatim>\<open>run\<close> before the main loop starts creates the overlay at once; the
  monitor's first poll then finds it.
\<close>

lemma run_then_first_poll:
  assumes "night_overlay (self S) = None" "queue S = []" "is_night_time hour (self S) t"
    "is_night_time hour (self S) t'"
  shows "run hour t S = S\<lparr>self := create_night_overlay (self S)\<rparr>"
    "run_events hour [Poll t', Gui] (run hour t S) = Some (run hour t S, [])"
proof -
  show r: "run hour t S = S\<lparr>self := create_night_overlay (self S)\<rparr>"
    using assms by (simp add: run_def)
  have "run_events hour (concat (map (\<lambda>t. [Poll t, Gui]) [t'])) (run hour t S) = Some (run hour t S, [])"
    unfolding r using assms
    by (intro polls_with_overlay) (simp_all add: create_night_overlay_first is_night_time_shift)
  then show "run_events hour [Poll t', Gui] (run hour t S) = Some (run hour t S, [])" by simp
qed

text \<open>
  However the polls and the main loop interleave, \<^verbatim>\<open>block_input\<close> is called at most once
  while the sampled time stays in the night window, and not at all when the overlay is
  already shown.
\<close>

lemma night_event_step:
  assumes "night_event hour (self S) e" "\<forall>c \<in> set (queue S). c = CreateNightOverlay"
  shows "\<exists>S'. exec hour e S = Some (S', [])
    \<and> (\<forall>c \<in> set (queue S'). c = CreateNightOverlay)
    \<and> time_offset (self S') = time_offset (self S)
    \<and> (if night_overlay (self S) = None
        then night_overlay (self S') = None \<and> block_input_calls (self S') = block_input_calls (self S)
           \<or> night_overlay (self S') \<noteq> None \<and> block_input_calls (self S') = block_input_calls (self S) + 1
        else night_overlay (self S') \<noteq> None \<and> block_input_calls (self S') = block_input_calls (self S))"
proof (cases e)
  case (Poll t)
  with assms show ?thesis
    by (simp add: exec_def monitor_time_def)
next
  case Gui
  show ?thesis
  proof (cases "queue S")
    case Nil
    with Gui show ?thesis by (simp add: exec_def mainloop_step_def)
  next
    case (Cons c cs)
    with assms(2) have c: "c = CreateNightOverlay" and cs: "\<forall>c \<in> set cs. c = CreateNightOverlay"
      by simp_all
    show ?thesis
    proof (cases "night_overlay (self S) = None")
      case True
      with Gui Cons c cs show ?thesis
        by (simp add: exec_def mainloop_step_def create_night_overlay_first)
    next
      case False
      with Gui Cons c cs show ?thesis
        by (simp add: exec_def mainloop_step_def create_night_overlay_again)
    qed
  qed
qed (use assms in simp_all)

lemma night_events_block_at_most_once:
  assumes "\<forall>e \<in> set es. night_event hour (self S) e" "\<forall>c \<in> set (queue S). c = CreateNightOverlay"
  shows "\<exists>S'. run_events hour es S = Some (S', [])
    \<and> block_input_calls (self S) \<le> block_input_calls (self S')
    \<and> block_input_calls (self S') \<le> block_input_calls (self S) + 1
    \<and> (night_overlay (self S) \<noteq> None \<longrightarrow> block_input_calls (self S') = block_input_calls (self S))"
  using assms
proof (induction es arbitrary: S)
  case Nil
  then show ?case by simp
next
  case (Cons e es)
  from Cons.prems have e: "night_event hour (self S) e" by simp
  from night_event_step [OF e Cons.prems(2)] obtain S1 where
    s1: "exec hour e S = Some (S1, [])" and
    q1: "\<forall>c \<in> set (queue S1). c = CreateNightOverlay" and
    o1: "time_offset (self S1) = time_offset (self S)" and
    c1: "if night_overlay (self S) = None
        then night_overlay (self S1) = None \<and> block_input_calls (self S1) = block_input_calls (self S)
           \<or> night_overlay (self S1) \<noteq> None \<and> block_input_calls (self S1) = block_input_calls (self S) + 1
        else night_overlay (self S1) \<noteq> None \<and> block_input_calls (self S1) = block_input_calls (self S)"
    by blast
  have "\<forall>e \<in> set es. night_event hour (self S1) e"
  proof
    fix e' assume "e' \<in> set es"
    with Cons.prems(1) have "night_event hour (self S) e'" by simp
    then show "night_event hour (self S1) e'"
      using o1 by (cases e') (simp_all add: is_night_time_shift)
  qed
  from Cons.IH [OF this q1] obtain S' where
    r: "run_events hour es S1 = Some (S', [])" and
    lo: "block_input_calls (self S1) \<le> block_input_calls (self S')" and
    hi: "block_input_calls (self S') \<le> block_input_calls (self S1) + 1" and
    same: "night_overlay (self S1) \<noteq> None \<longrightarrow> block_input_calls (self S') = block_input_calls (self S1)"
    by blast
  have "run_events hour (e # es) S = Some (S', [])" using s1 r by simp
  moreover have "block_input_calls (self S) \<le> block_input_calls (self S')"
    using c1 lo by (auto split: if_splits)
  moreover have "block_input_calls (self S') \<le> block_input_calls (self S) + 1"
    using c1 hi same by (auto split: if_splits)
  moreover have "night_overlay (self S) \<noteq> None \<longrightarrow> block_input_calls (self S') = block_input_calls (self S)"
    using c1 same by (auto split: if_splits)
  ultimately show ?case by blast
qed

text \<open>
  C7. Starting with no night overlay and no pending callback, let the monitor poll any
  positive number of times with every sampled time in the night window, the main loop
  serving the queued callback after each poll. Then \<^verbatim>\<open>block_input\<close> has been called
  exactly once over all the polls: the run ends in the state that one call of
  \<^verbatim>\<open>create_night_overlay\<close> produces, whatever the number of polls.
\<close>

theorem night_polls_block_once:
  assumes "night_overlay (self S) = None" "queue S = []" "ts \<noteq> []"
    "\<forall>t \<in> set ts. is_night_time hour (self S) t"
  shows "run_events hour (concat (map (\<lambda>t. [Poll t, Gui]) ts)) S
      = Some (S\<lparr>self := create_night_overlay (self S)\<rparr>, [])
    \<and> block_input_calls (create_night_overlay (self S)) = block_input_calls (self S) + 1"
proof -
  from assms(3) obtain t ts' where ts: "ts = t # ts'" by (cases ts) auto
  let ?S = "S\<lparr>self := create_night_overlay (self S)\<rparr>"
  have one: "run_events hour [Poll t, Gui] S = Some (?S, [])"
    using assms ts by (intro first_poll) simp_all
  have "run_events hour (concat (map (\<lambda>t. [Poll t, Gui]) ts')) ?S = Some (?S, [])"
  proof (rule polls_with_overlay)
    show "night_overlay (self ?S) \<noteq> None"
      using assms(1) by (simp add: create_night_overlay_first)
    show "queue ?S = []" using assms(2) by simp
    show "\<forall>t \<in> set ts'. is_night_time hour (self ?S) t"
      using assms(4) ts by (simp add: is_night_time_shift)
  qed
  from run_events_after [OF one this] have
    "run_events hour (concat (map (\<lambda>t. [Poll t, Gui]) ts)) S = Some (?S, [])"
    using ts by simp
  then show ?thesis using assms(1) by (simp add: create_night_overlay_first)
qed

theorem night_polls_block_once_witness:
  "night_overlay (self booted) = None \<and> queue booted = []
   \<and> is_night_time utc_hour (self booted) 0 \<and> is_night_time utc_hour (self booted) 30
   \<and> is_night_time utc_hour (self booted) 60
   \<and> run_events utc_hour [Poll 0, Gui, Poll 30, Gui, Poll 60, Gui] booted
       = Some (booted\<lparr>self := create_night_overlay (self booted)\<rparr>, [])
   \<and> block_input_calls (self booted) = 0
   \<and> block_input_calls (create_night_overlay (self booted)) = 1"
proof -
  have hyps: "night_overlay (self booted) = None" "queue booted = []"
    "is_night_time utc_hour (self booted) 0" "is_night_time utc_hour (self booted) 30"
    "is_night_time utc_hour (self booted) 60" "block_input_calls (self booted) = 0"
    by (simp_all add: booted_def init_attributes_def is_night_time_shift night_hour_def
        utc_hour_def block_input_calls_def)
  show ?thesis
    using night_polls_block_once [of booted "[0, 30, 60]" utc_hour] hyps by simp
qed

text \<open>
  C2, as amended. When a break ends while the night overlay is shown, the scheduler's
  transition to the work phase unblocks input and nothing supersedes it: the flag
  \<open>blocking\<close> is false afterwards, the listeners the attributes refer to are stopped, the
  night overlay stays, and the monitor's following polls, all in the night window, call
  \<^verbatim>\<open>block_input\<close> no more.
\<close>

theorem work_entry_unblocks_at_night:
  assumes "i < length (threads S)" "threads S ! i = Sleeping 1" "is_running (self S)"
    "\<not> is_work_session (self S)" "0 < work_duration (self S)"
    "night_overlay (self S) \<noteq> None" "queue S = []"
    "\<forall>t \<in> set ts. is_night_time hour (self S) t"
  shows "run_events hour (Wake i # concat (map (\<lambda>t. [Poll t, Gui]) ts)) S
      = Some (S\<lparr>self := (enter_work ((self S)\<lparr>is_work_session := True\<rparr>))
                       \<lparr>time_var := clock_text (work_duration (self S))\<rparr>,
                threads := (threads S)[i := Sleeping (work_duration (self S))]\<rparr>,
              [Expired 0, Enter Work])
    \<and> \<not> blocking (enter_work ((self S)\<lparr>is_work_session := True\<rparr>))
    \<and> night_overlay (enter_work ((self S)\<lparr>is_work_session := True\<rparr>)) = night_overlay (self S)
    \<and> block_input_calls (enter_work ((self S)\<lparr>is_work_session := True\<rparr>))
        = block_input_calls (self S)
    \<and> (\<forall>m. mouse_listener (self S) = Some m \<and> m < length (listeners (self S)) \<longrightarrow>
          snd (listeners (enter_work ((self S)\<lparr>is_work_session := True\<rparr>)) ! m) = Stopped)
    \<and> (\<forall>k. keyboard_listener (self S) = Some k \<and> k < length (listeners (self S)) \<longrightarrow>
          snd (listeners (enter_work ((self S)\<lparr>is_work_session := True\<rparr>)) ! k) = Stopped)"
proof -
  let ?W = "S\<lparr>self := (enter_work ((self S)\<lparr>is_work_session := True\<rparr>))
                       \<lparr>time_var := clock_text (work_duration (self S))\<rparr>,
                threads := (threads S)[i := Sleeping (work_duration (self S))]\<rparr>"
  have "wake i S = Some (?W, [Expired 0, Enter Work])"
    using assms(1-5) by (rule wake_break_to_work)
  then have one: "run_events hour [Wake i] S = Some (?W, [Expired 0, Enter Work])"
    by (simp add: exec_def)
  have polls: "run_events hour (concat (map (\<lambda>t. [Poll t, Gui]) ts)) ?W = Some (?W, [])"
  proof (rule polls_with_overlay)
    show "night_overlay (self ?W) \<noteq> None" using assms(6) by simp
    show "queue ?W = []" using assms(7) by simp
    show "\<forall>t \<in> set ts. is_night_time hour (self ?W) t"
      using assms(8) by (simp add: is_night_time_shift)
  qed
  from run_events_after [OF one polls]
  have "run_events hour (Wake i # concat (map (\<lambda>t. [Poll t, Gui]) ts)) S
      = Some (?W, [Expired 0, Enter Work])"
    by simp
  moreover have "\<not> blocking (enter_work ((self S)\<lparr>is_work_session := True\<rparr>))"
    by (simp only: enter_work_unblocks(1) not_False_eq_True)
  moreover have "night_overlay (enter_work ((self S)\<lparr>is_work_session := True\<rparr>))
      = night_overlay (self S)"
    by simp
  moreover have "block_input_calls (enter_work ((self S)\<lparr>is_work_session := True\<rparr>))
      = block_input_calls (self S)"
    by (simp add: block_input_calls_def enter_work_unblocks(2))
  moreover have "\<forall>m. mouse_listener (self S) = Some m \<and> m < length (listeners (self S)) \<longrightarrow>
      snd (listeners (enter_work ((self S)\<lparr>is_work_session := True\<rparr>)) ! m) = Stopped"
  proof (intro allI impI)
    fix m
    assume "mouse_listener (self S) = Some m \<and> m < length (listeners (self S))"
    then have "mouse_listener ((self S)\<lparr>is_work_session := True\<rparr>) = Some m"
      "m < length (listeners ((self S)\<lparr>is_work_session := True\<rparr>))"
      by simp_all
    then show "snd (listeners (enter_work ((self S)\<lparr>is_work_session := True\<rparr>)) ! m) = Stopped"
      by (rule enter_work_unblocks(3))
  qed
  moreover have "\<forall>k. keyboard_listener (self S) = Some k \<and> k < length (listeners (self S)) \<longrightarrow>
      snd (listeners (enter_work ((self S)\<lparr>is_work_session := True\<rparr>)) ! k) = Stopped"
  proof (intro allI impI)
    fix k
    assume "keyboard_listener (self S) = Some k \<and> k < length (listeners (self S))"
    then have "keyboard_listener ((self S)\<lparr>is_work_session := True\<rparr>) = Some k"
      "k < length (listeners ((self S)\<lparr>is_work_session := True\<rparr>))"
      by simp_all
    then show "snd (listeners (enter_work ((self S)\<lparr>is_work_session := True\<rparr>)) ! k) = Stopped"
      by (rule enter_work_unblocks(4))
  qed
  ultimately show ?thesis by (intro conjI)
qed

theorem work_entry_unblocks_at_night_witness:
  "threads night_break_end = [Sleeping 1] \<and> is_running (self night_break_end)
   \<and> \<not> is_work_session (self night_break_end) \<and> 0 < work_duration (self night_break_end)
   \<and> night_overlay (self night_break_end) = Some 0 \<and> queue night_break_end = []
   \<and> is_night_time utc_hour (self night_break_end) 7620
   \<and> is_night_time utc_hour (self night_break_end) 7650
   \<and> night_state utc_hour 7650
        (run_events utc_hour [Wake 0, Poll 7620, Gui, Poll 7650, Gui] night_break_end)
      = Some (True, Some 0, False, [], [Expired 0, Enter Work])"
proof -
  have hyps: "threads night_break_end = [Sleeping 1]" "is_running (self night_break_end)"
    "\<not> is_work_session (self night_break_end)" "0 < work_duration (self night_break_end)"
    "night_overlay (self night_break_end) = Some 0" "queue night_break_end = []"
    "is_night_time utc_hour (self night_break_end) 7620"
    "is_night_time utc_hour (self night_break_end) 7650"
    by (simp_all add: night_break_end_def is_night_time_def get_accurate_time_def night_hour_def
        utc_hour_def)
  have ev: "night_state utc_hour 7650
        (run_events utc_hour [Wake 0, Poll 7620, Gui, Poll 7650, Gui] night_break_end)
      = Some (True, Some 0, False, [], [Expired 0, Enter Work])"
    by code_simp
  show ?thesis
    using work_entry_unblocks_at_night [of 0 night_break_end "[7620, 7650]" utc_hour] hyps ev
    by simp
qed

lemma night_start_reached:
  "run_events utc_hour [Poll 0, Gui, Start, Wake 0] booted = Some (night_start, [Enter Work])"
  by code_simp

lemma night_break_end_reached:
  "run_events utc_hour
     (([Poll 0, Gui, Start, Wake 0] @ replicate 7200 (Wake 0)) @ replicate 419 (Wake 0)) booted
   = Some (night_break_end, [Enter Work, Expired 0, Enter Break])"
proof -
  let ?B = "night_start\<lparr>self := (enter_break ((self night_start)\<lparr>is_work_session := False\<rparr>))
                     \<lparr>time_var := clock_text (rest_duration (self night_start))\<rparr>,
            threads := (threads night_start)[0 := Sleeping (rest_duration (self night_start))]\<rparr>"
  have "run_events utc_hour (replicate (nat 7200) (Wake 0)) night_start
      = Some (?B, [Expired 0, Enter Break])"
    by (rule work_phase) (simp_all add: night_start_def)
  then have work: "run_events utc_hour (replicate 7200 (Wake 0)) night_start
      = Some (?B, [Expired 0, Enter Break])"
    by simp
  have rest: "run_events utc_hour (replicate 419 (Wake 0)) ?B =
      Some (?B\<lparr>self := (self ?B)\<lparr>time_var := clock_text (420 - int 419)\<rparr>,
              threads := (threads ?B)[0 := Sleeping (420 - int 419)]\<rparr>, [])"
    by (rule wakes_countdown) (simp_all add: night_start_def)
  have "?B\<lparr>self := (self ?B)\<lparr>time_var := clock_text (420 - int 419)\<rparr>,
              threads := (threads ?B)[0 := Sleeping (420 - int 419)]\<rparr> = night_break_end"
    by code_simp
  with rest have rest': "run_events utc_hour (replicate 419 (Wake 0)) ?B = Some (night_break_end, [])"
    by simp
  from run_events_after [OF run_events_after [OF night_start_reached work] rest']
  show ?thesis by simp
qed

text \<open>
  C2 as stated fails. The night overlay appears at 00:00 and blocks input; a session is
  started; it works for 7200 seconds and rests for 420; at 02:07 the break ends. The night
  window is still active and the overlay still shown, the monitor polls again, and in the
  end the flag \<open>blocking\<close> is false and no listener runs.
\<close>

theorem night_unblock_counterexample:
  "night_state utc_hour 7620
     (run_events utc_hour
        ((([Poll 0, Gui, Start, Wake 0] @ replicate 7200 (Wake 0)) @ replicate 420 (Wake 0))
           @ [Poll 7620, Gui]) booted)
   = Some (True, Some 0, False, [], [Enter Work, Expired 0, Enter Break, Expired 0, Enter Work])"
proof -
  let ?B = "night_start\<lparr>self := (enter_break ((self night_start)\<lparr>is_work_session := False\<rparr>))
                     \<lparr>time_var := clock_text (rest_duration (self night_start))\<rparr>,
            threads := (threads night_start)[0 := Sleeping (rest_duration (self night_start))]\<rparr>"
  let ?W = "?B\<lparr>self := (enter_work ((self ?B)\<lparr>is_work_session := True\<rparr>))
                     \<lparr>time_var := clock_text (work_duration (self ?B))\<rparr>,
            threads := (threads ?B)[0 := Sleeping (work_duration (self ?B))]\<rparr>"
  have "run_events utc_hour (replicate (nat 7200) (Wake 0)) night_start
      = Some (?B, [Expired 0, Enter Break])"
    by (rule work_phase) (simp_all add: night_start_def)
  then have work: "run_events utc_hour (replicate 7200 (Wake 0)) night_start
      = Some (?B, [Expired 0, Enter Break])"
    by simp
  have "run_events utc_hour (replicate (nat 420) (Wake 0)) ?B = Some (?W, [Expired 0, Enter Work])"
    by (rule break_phase) (simp_all add: night_start_def)
  then have rest: "run_events utc_hour (replicate 420 (Wake 0)) ?B = Some (?W, [Expired 0, Enter Work])"
    by simp
  have poll: "run_events utc_hour [Poll 7620, Gui] ?W = Some (?W, [])"
    by (simp add: exec_def monitor_time_def mainloop_step_def is_night_time_def
        get_accurate_time_def night_hour_def utc_hour_def night_start_def)
  have run: "run_events utc_hour
        ((([Poll 0, Gui, Start, Wake 0] @ replicate 7200 (Wake 0)) @ replicate 420 (Wake 0))
           @ [Poll 7620, Gui]) booted
      = Some (?W, (([Enter Work] @ [Expired 0, Enter Break]) @ [Expired 0, Enter Work]) @ [])"
    by (rule run_events_after [OF run_events_after [OF run_events_after
          [OF night_start_reached work] rest] poll])
  have "night_state utc_hour 7620
      (Some (?W, (([Enter Work] @ [Expired 0, Enter Break]) @ [Expired 0, Enter Work]) @ []))
    = Some (True, Some 0, False, [], [Enter Work, Expired 0, Enter Break, Expired 0, Enter Work])"
    by code_simp
  then show ?thesis by (simp only: run)
qed

section \<open>Emergency stop and restart\<close>

text \<open>
  What \<^verbatim>\<open>stop_timer\<close> does in every state: it clears the two flags, resets the display to
  the text of the work duration, and unmutes the audio when the call on the endpoint
  succeeds. A timer thread that wakes up afterwards returns without entering a phase.
\<close>

lemma unblock_input_frame [simp]:
  "is_running (unblock_input s) = is_running s"
  "audio (unblock_input s) = audio s"
  by (cases "mouse_listener s"; cases "keyboard_listener s";
      simp add: unblock_input_def listener_stop_def)+

lemma unmute_audio_running [simp]: "is_running (unmute_audio s) = is_running s"
  by (cases "audio s") (simp_all add: unmute_audio_def)

lemma destroy_overlay_running [simp]:
  "is_running (destroy_overlay s) = is_running s"
  "audio (destroy_overlay s) = audio s"
  by (cases "overlay s"; simp add: destroy_overlay_def destroy_window_def)+

lemma unmute_audio_unmutes:
  "audio s = Some e \<Longrightarrow> \<not> faulty e \<Longrightarrow> audio_muted (unmute_audio s) = False"
  "audio s = None \<Longrightarrow> audio_muted (unmute_audio s) = False"
  by (simp_all add: unmute_audio_def audio_muted_def)

lemma cleanup_unfolded:
  "cleanup s = (unmute_audio (unblock_input (destroy_overlay s)))
     \<lparr>time_var := ''120:00'', status_var := ''Ready to focus'', is_work_session := True\<rparr>"
  by (simp add: cleanup_def)

lemma stop_timer_resets:
  "is_running (stop_timer s) = False"
  "blocking (stop_timer s) = False"
  "is_work_session (stop_timer s) = True"
  "time_var (stop_timer s) = ''120:00''"
  "status_var (stop_timer s) = ''Ready to focus''"
  "audio s = Some e \<Longrightarrow> \<not> faulty e \<Longrightarrow> audio_muted (stop_timer s) = False"
  "audio s = None \<Longrightarrow> audio_muted (stop_timer s) = False"
proof -
  show "is_running (stop_timer s) = False" "blocking (stop_timer s) = False"
    "is_work_session (stop_timer s) = True" "time_var (stop_timer s) = ''120:00''"
    "status_var (stop_timer s) = ''Ready to focus''"
    by (simp_all add: stop_timer_def cleanup_unfolded)
  have m: "audio_muted (stop_timer s)
      = audio_muted (unmute_audio (unblock_input (destroy_overlay (s\<lparr>is_running := False\<rparr>))))"
    by (simp add: stop_timer_def cleanup_unfolded audio_muted_def)
  show "audio s = Some e \<Longrightarrow> \<not> faulty e \<Longrightarrow> audio_muted (stop_timer s) = False"
    unfolding m by (rule unmute_audio_unmutes(1)) simp_all
  show "audio s = None \<Longrightarrow> audio_muted (stop_timer s) = False"
    unfolding m by (rule unmute_audio_unmutes(2)) simp
qed

lemma display_after_stop: "clock_text (work_duration init_attributes) = ''120:00''"
  by code_simp

lemma wake_after_stop:
  assumes "i < length (threads S)" "threads S ! i = Sleeping d" "\<not> is_running (self S)"
  shows "wake i S = Some (S\<lparr>threads := (threads S)[i := Finished]\<rparr>, [Expired (d - 1)])"
proof -
  have r: "resume (AtCountdown (d - 1)) (self S) = Some (self S, Finished, [Expired (d - 1)])"
    using assms(3) by (simp add: resume_expired resume_stopped)
  have "S\<lparr>self := self S, threads := (threads S)[i := Finished]\<rparr>
      = S\<lparr>threads := (threads S)[i := Finished]\<rparr>"
    by (cases S) simp
  then show ?thesis
    by (simp add: wake_sleeping [OF assms(1,2)] r)
qed

lemma night_work_reached:
  "run_events utc_hour [Start, Wake 0, Poll 0, Gui] booted = Some (night_work, [Enter Work])"
  by code_simp

lemma night_work_break:
  "run_events utc_hour (replicate 7200 (Wake 0)) night_work =
    Some (night_work\<lparr>self := (enter_break ((self night_work)\<lparr>is_work_session := False\<rparr>))
                     \<lparr>time_var := clock_text (rest_duration (self night_work))\<rparr>,
            threads := (threads night_work)[0 := Sleeping (rest_duration (self night_work))]\<rparr>,
          [Expired 0, Enter Break])"
proof -
  have "run_events utc_hour (replicate (nat 7200) (Wake 0)) night_work =
    Some (night_work\<lparr>self := (enter_break ((self night_work)\<lparr>is_work_session := False\<rparr>))
                     \<lparr>time_var := clock_text (rest_duration (self night_work))\<rparr>,
            threads := (threads night_work)[0 := Sleeping (rest_duration (self night_work))]\<rparr>,
          [Expired 0, Enter Break])"
    by (rule work_phase) (simp_all add: night_work_def)
  then show ?thesis by simp
qed

text \<open>
  C1. A session is started at midnight, the night overlay appears and blocks input
  (listeners 0 and 1), the work phase runs its 7200 seconds, the break begins and blocks
  input again (listeners 2 and 3), and the user stops the timer. After \<^verbatim>\<open>stop_timer\<close> the
  flags are cleared, the audio is unmuted and the display shows 120:00, but listeners 0 and
  1 are still running: input is still intercepted. It stays so after the timer thread has
  woken up and returned, and after the night has ended and the overlay has been removed.
\<close>

theorem stop_timer_leaves_listeners:
  "lock_state (run_events utc_hour
      (([Start, Wake 0, Poll 0, Gui] @ replicate 7200 (Wake 0)) @ [Stop]) booted)
     = Some (False, False, [0, 1], False, ''120:00'')
   \<and> lock_state (run_events utc_hour
      ((([Start, Wake 0, Poll 0, Gui] @ replicate 7200 (Wake 0)) @ [Stop])
         @ [Wake 0, Poll (6 * 3600), Gui]) booted)
     = Some (False, False, [0, 1], False, ''120:00'')"
proof -
  let ?B = "night_work\<lparr>self := (enter_break ((self night_work)\<lparr>is_work_session := False\<rparr>))
                     \<lparr>time_var := clock_text (rest_duration (self night_work))\<rparr>,
            threads := (threads night_work)[0 := Sleeping (rest_duration (self night_work))]\<rparr>"
  have break: "run_events utc_hour ([Start, Wake 0, Poll 0, Gui] @ replicate 7200 (Wake 0)) booted
      = Some (?B, [Enter Work] @ [Expired 0, Enter Break])"
    by (rule run_events_after [OF night_work_reached night_work_break])
  have stop: "run_events utc_hour [Stop] ?B = Some (?B\<lparr>self := stop_timer (self ?B)\<rparr>, [])"
    by (simp add: exec_def)
  have stopped: "run_events utc_hour
      (([Start, Wake 0, Poll 0, Gui] @ replicate 7200 (Wake 0)) @ [Stop]) booted
      = Some (?B\<lparr>self := stop_timer (self ?B)\<rparr>, ([Enter Work] @ [Expired 0, Enter Break]) @ [])"
    by (rule run_events_after [OF break stop])
  have a: "lock_state (Some (?B\<lparr>self := stop_timer (self ?B)\<rparr>, ([Enter Work] @ [Expired 0, Enter Break]) @ []))
      = Some (False, False, [0, 1], False, ''120:00'')"
    by code_simp
  have later: "lock_state
      (Option.bind (run_events utc_hour [Wake 0, Poll (6 * 3600), Gui] (?B\<lparr>self := stop_timer (self ?B)\<rparr>))
         (\<lambda>(S2, ls2). Some (S2, (([Enter Work] @ [Expired 0, Enter Break]) @ []) @ ls2)))
      = Some (False, False, [0, 1], False, ''120:00'')"
    by code_simp
  have b: "lock_state (run_events utc_hour
      ((([Start, Wake 0, Poll 0, Gui] @ replicate 7200 (Wake 0)) @ [Stop])
         @ [Wake 0, Poll (6 * 3600), Gui]) booted)
     = Some (False, False, [0, 1], False, ''120:00'')"
    using later by (simp only: run_events_append [of _ "([Start, Wake 0, Poll 0, Gui] @ replicate 7200 (Wake 0)) @ [Stop]"] stopped Option.bind.simps prod.case)
  show ?thesis using a b by (simp only: stopped) 
qed

text \<open>
  C4. \<^verbatim>\<open>start_timer\<close> called while a session is running does not replace that session: the
  thread of the first session keeps counting beside the new one. Two sessions are in
  flight, and the display alternates between their two countdowns.
\<close>

theorem start_timer_twice_two_sessions:
  "sessions (run_events utc_hour [Start, Wake 0, Wake 0, Start, Wake 1] booted)
     = Some (2, [Sleeping 7199, Sleeping 7200], ''120:00'', [Enter Work, Enter Work])
   \<and> sessions (run_events utc_hour [Start, Wake 0, Wake 0, Start, Wake 1, Wake 0] booted)
     = Some (2, [Sleeping 7198, Sleeping 7200], ''119:58'', [Enter Work, Enter Work])
   \<and> sessions (run_events utc_hour [Start, Wake 0, Wake 0, Start, Wake 1, Wake 0, Wake 1] booted)
     = Some (2, [Sleeping 7198, Sleeping 7199], ''119:59'', [Enter Work, Enter Work])"
  by code_simp






end
